theory Spec2Isabelle
  imports Complex_Main "HOL-Library.Monad_Syntax"
begin

section \<open>The flat orthtree store\<close>

text \<open>
  The class template \<open>Orthtree<Dim, Vector, LeafValue, NodeValue, Details>\<close> of
  \<open>orthtree.h\<close> and \<open>orthtree.tpp\<close>.  The template parameter \<open>Dim\<close> is the first
  argument \<open>D\<close> of every function below; a \<open>Vector\<close> is a list of \<open>D\<close> scalars.  The
  scalar type is a type parameter, as in the source: the functions only use its
  comparison, subtraction, addition and division by two.

  Unsigned sizes (\<open>size_type\<close>) are natural numbers and signed offsets
  (\<open>difference_type\<close>) are integers.  The places where the source can take an unsigned
  value below zero write the wrap-around of a 64-bit \<open>size_t\<close> out (\<open>size_add\<close>,
  \<open>size_of_int\<close>).  Iterators are their \<open>_index\<close> field, a signed integer; reading or
  writing the node or leaf vector outside its bounds is undefined behaviour in the
  source and \<open>None\<close> here, and so is a loop that never ends.
\<close>

record ('a, 'l) LeafInternal =
  lposition :: "'a list"
  lvalue :: 'l

record ('a, 'n) NodeInternal =
  position :: "'a list"
  dimensions :: "'a list"
  depth :: nat
  childIndices :: "nat list"
  parentIndex :: int
  siblingIndex :: nat
  leafCount :: nat
  leafIndex :: nat
  hasChildren :: bool
  nvalue :: 'n

record ('a, 'l, 'n) Orthtree =
  leafs :: "('a, 'l) LeafInternal list"
  nodes :: "('a, 'n) NodeInternal list"
  nodeCapacity :: nat
  maxDepth :: nat
  autoAdjust :: bool

text \<open>Arithmetic of \<open>size_t\<close>: adding a signed amount, and converting a signed index.\<close>

definition size_add :: "nat \<Rightarrow> int \<Rightarrow> nat" where
  "size_add x d = (let s = int x + d in nat (if s < 0 then s + 2 ^ 64 else s))"

definition size_of_int :: "int \<Rightarrow> nat" where
  "size_of_int i = nat (if i < 0 then i + 2 ^ 64 else i)"

text \<open>The constructor \<open>NodeInternal(position, dimensions, value)\<close>: an empty root.\<close>

definition NodeInternal_new :: "nat \<Rightarrow> 'a list \<Rightarrow> 'a list \<Rightarrow> 'n \<Rightarrow> ('a, 'n) NodeInternal" where
  "NodeInternal_new D pos dims v =
     \<lparr>position = pos, dimensions = dims, depth = 0,
      childIndices = replicate (2 ^ D + 1) 1, parentIndex = 0, siblingIndex = 0,
      leafCount = 0, leafIndex = 0, hasChildren = False, nvalue = v\<rparr>"

text \<open>Reading and writing \<open>_nodes[_index]\<close> through a node iterator.\<close>

definition nodeAt :: "('a, 'l, 'n) Orthtree \<Rightarrow> int \<Rightarrow> ('a, 'n) NodeInternal option" where
  "nodeAt t i = (if 0 \<le> i \<and> i < int (length (nodes t)) then Some (nodes t ! nat i) else None)"

definition nodeUpdate ::
  "('a, 'l, 'n) Orthtree \<Rightarrow> int \<Rightarrow> (('a, 'n) NodeInternal \<Rightarrow> ('a, 'n) NodeInternal)
   \<Rightarrow> ('a, 'l, 'n) Orthtree option" where
  "nodeUpdate t i f =
     (if 0 \<le> i \<and> i < int (length (nodes t))
      then Some (t\<lparr>nodes := (nodes t)[nat i := f (nodes t ! nat i)]\<rparr>) else None)"

definition leafAt :: "('a, 'l, 'n) Orthtree \<Rightarrow> int \<Rightarrow> ('a, 'l) LeafInternal option" where
  "leafAt t j = (if 0 \<le> j \<and> j < int (length (leafs t)) then Some (leafs t ! nat j) else None)"

text \<open>\<open>nodes().end()\<close> and \<open>leafs().end()\<close>: the sentinel handles.\<close>

definition nodes_end :: "('a, 'l, 'n) Orthtree \<Rightarrow> int" where
  "nodes_end t = int (length (nodes t))"

definition leafs_end :: "('a, 'l, 'n) Orthtree \<Rightarrow> int" where
  "leafs_end t = int (length (leafs t))"

text \<open>
  The fields of the reference proxy that \<open>NodeIteratorBase::operator*\<close> builds:
  \<open>parent\<close>, \<open>children[k]\<close>, \<open>hasParent\<close>, and the bounds of \<open>leafs\<close>.
\<close>

definition parent :: "('a, 'l, 'n) Orthtree \<Rightarrow> int \<Rightarrow> int option" where
  "parent t i = do { n \<leftarrow> nodeAt t i; Some (i + parentIndex n) }"

definition children :: "('a, 'l, 'n) Orthtree \<Rightarrow> int \<Rightarrow> nat \<Rightarrow> int option" where
  "children t i k =
     do { n \<leftarrow> nodeAt t i;
          if k < length (childIndices n) then Some (i + int (childIndices n ! k)) else None }"

definition hasParent :: "('a, 'l, 'n) Orthtree \<Rightarrow> int \<Rightarrow> bool option" where
  "hasParent t i = do { n \<leftarrow> nodeAt t i; Some (i \<noteq> 0) }"

definition leafs_begin :: "('a, 'n) NodeInternal \<Rightarrow> int" where
  "leafs_begin n = int (leafIndex n)"

definition leafs_end_of :: "('a, 'n) NodeInternal \<Rightarrow> int" where
  "leafs_end_of n = int (leafIndex n) + int (leafCount n)"

section \<open>Geometry predicates\<close>

text \<open>\<open>Orthtree::contains(node, point)\<close>: the per-axis half-open test.\<close>

definition contains_box :: "nat \<Rightarrow> ('a::{ord,minus}, 'n) NodeInternal \<Rightarrow> 'a list \<Rightarrow> bool" where
  "contains_box D n point =
     list_all (\<lambda>dim. point ! dim \<ge> position n ! dim \<and>
                     point ! dim - position n ! dim < dimensions n ! dim) [0..<D]"

definition contains :: "nat \<Rightarrow> ('a::{ord,minus}, 'l, 'n) Orthtree \<Rightarrow> int \<Rightarrow> 'a list \<Rightarrow> bool option" where
  "contains D t node point = do { n \<leftarrow> nodeAt t node; Some (contains_box D n point) }"

text \<open>\<open>Orthtree::contains(node, leaf)\<close>: the leaf's index lies in the node's leaf range.\<close>

definition contains_leaf :: "('a, 'l, 'n) Orthtree \<Rightarrow> int \<Rightarrow> int \<Rightarrow> bool option" where
  "contains_leaf t node leaf =
     do { n \<leftarrow> nodeAt t node;
          let leafIdx = size_of_int leaf;
              lower = leafIndex n;
              upper = lower + leafCount n
          in Some (leafIdx \<ge> lower \<and> leafIdx < upper) }"

text \<open>
  A scalar type with the special values of IEEE 754 arithmetic, to instantiate the
  scalar parameter with: finite values are computed exactly (rounding is not modelled),
  every comparison with \<open>NaN\<close> is false, and the differences of infinities are as in
  IEEE 754.
\<close>

datatype fp = Finite rat | PInf | NInf | NaN

instantiation fp :: "{ord, minus, inverse, zero, numeral}"
begin

fun less_eq_fp :: "fp \<Rightarrow> fp \<Rightarrow> bool" where
  "less_eq_fp NaN _ = False"
| "less_eq_fp _ NaN = False"
| "less_eq_fp NInf _ = True"
| "less_eq_fp _ PInf = True"
| "less_eq_fp (Finite a) (Finite b) = (a \<le> b)"
| "less_eq_fp _ _ = False"

fun less_fp :: "fp \<Rightarrow> fp \<Rightarrow> bool" where
  "less_fp NaN _ = False"
| "less_fp _ NaN = False"
| "less_fp PInf _ = False"
| "less_fp _ NInf = False"
| "less_fp (Finite a) (Finite b) = (a < b)"
| "less_fp _ _ = True"

fun plus_fp :: "fp \<Rightarrow> fp \<Rightarrow> fp" where
  "plus_fp NaN _ = NaN"
| "plus_fp _ NaN = NaN"
| "plus_fp PInf NInf = NaN"
| "plus_fp NInf PInf = NaN"
| "plus_fp PInf _ = PInf"
| "plus_fp _ PInf = PInf"
| "plus_fp NInf _ = NInf"
| "plus_fp _ NInf = NInf"
| "plus_fp (Finite a) (Finite b) = Finite (a + b)"

fun minus_fp :: "fp \<Rightarrow> fp \<Rightarrow> fp" where
  "minus_fp NaN _ = NaN"
| "minus_fp _ NaN = NaN"
| "minus_fp PInf PInf = NaN"
| "minus_fp NInf NInf = NaN"
| "minus_fp PInf _ = PInf"
| "minus_fp _ PInf = NInf"
| "minus_fp NInf _ = NInf"
| "minus_fp _ NInf = PInf"
| "minus_fp (Finite a) (Finite b) = Finite (a - b)"

fun divide_fp :: "fp \<Rightarrow> fp \<Rightarrow> fp" where
  "divide_fp NaN _ = NaN"
| "divide_fp _ NaN = NaN"
| "divide_fp (Finite a) (Finite b) =
     (if b = 0 then (if a = 0 then NaN else if 0 < a then PInf else NInf) else Finite (a / b))"
| "divide_fp (Finite a) _ = Finite 0"
| "divide_fp PInf (Finite b) = (if 0 \<le> b then PInf else NInf)"
| "divide_fp NInf (Finite b) = (if 0 \<le> b then NInf else PInf)"
| "divide_fp _ _ = NaN"

definition zero_fp :: fp where "zero_fp = Finite 0"

definition one_fp :: fp where "one_fp = Finite 1"

definition inverse_fp :: "fp \<Rightarrow> fp" where "inverse_fp x = divide (Finite 1) x"

instance
proof
  fix a b c :: fp
  show "a + b + c = a + (b + c)"
    by (cases a; cases b; cases c) simp_all
qed

end

text \<open>
  A scalar type with the rounding of IEEE 754 binary64 arithmetic on finite values,
  to run \<open>find\<close> and \<open>contains\<close> on.  A value is a rational number; subtraction and
  division round their exact result to the nearest number with a significand of 53
  bits, ties to the even significand (\<open>round53\<close>); comparisons are exact.  The
  exponent range, the infinities and \<open>NaN\<close> are not modelled here.  Addition is the
  exact sum, as the class of numerals asks for an associative addition; \<open>find\<close> and
  \<open>contains\<close> subtract, compare and halve only, and the one sum they ever form is the
  literal \<open>2 = 1 + 1\<close>, which binary64 computes exactly.

  \<open>bitlen n\<close> is the number of binary digits of \<open>n\<close>, \<open>pow2 k\<close> is \<open>2^k\<close> for an integer
  \<open>k\<close>, \<open>ilog2 x\<close> is the integer part of the binary logarithm of a positive \<open>x\<close>, and
  \<open>round_even\<close> rounds to the nearest integer, ties to even.
\<close>

function bitlen :: "int \<Rightarrow> int" where
  "bitlen n = (if n \<le> 0 then 0 else 1 + bitlen (n div 2))"
  by auto

termination
  by (relation "measure nat") auto

definition pow2 :: "int \<Rightarrow> rat" where
  "pow2 k = (if 0 \<le> k then 2 ^ nat k else 1 / 2 ^ nat (- k))"

definition ilog2 :: "rat \<Rightarrow> int" where
  "ilog2 x = (let (p, q) = quotient_of x;
                  k = bitlen p - bitlen q
              in if pow2 k \<le> x then k else k - 1)"

definition round_even :: "rat \<Rightarrow> int" where
  "round_even q = (let f = \<lfloor>q\<rfloor>; r = q - of_int f
                   in if r < 1 / 2 then f else if 1 / 2 < r then f + 1
                      else if even f then f else f + 1)"

definition round53 :: "rat \<Rightarrow> rat" where
  "round53 x = (if x = 0 then 0
                else let s = pow2 (ilog2 \<bar>x\<bar> - 52)
                     in sgn x * of_int (round_even (\<bar>x\<bar> / s)) * s)"

datatype f64 = F64 rat

instantiation f64 :: "{ord, minus, inverse, zero, numeral}"
begin

fun less_eq_f64 :: "f64 \<Rightarrow> f64 \<Rightarrow> bool" where
  "less_eq_f64 (F64 a) (F64 b) = (a \<le> b)"

fun less_f64 :: "f64 \<Rightarrow> f64 \<Rightarrow> bool" where
  "less_f64 (F64 a) (F64 b) = (a < b)"

fun plus_f64 :: "f64 \<Rightarrow> f64 \<Rightarrow> f64" where
  "plus_f64 (F64 a) (F64 b) = F64 (a + b)"

fun minus_f64 :: "f64 \<Rightarrow> f64 \<Rightarrow> f64" where
  "minus_f64 (F64 a) (F64 b) = F64 (round53 (a - b))"

fun divide_f64 :: "f64 \<Rightarrow> f64 \<Rightarrow> f64" where
  "divide_f64 (F64 a) (F64 b) = F64 (round53 (a / b))"

fun inverse_f64 :: "f64 \<Rightarrow> f64" where
  "inverse_f64 (F64 a) = F64 (round53 (1 / a))"

definition zero_f64 :: f64 where "zero_f64 = F64 0"

definition one_f64 :: f64 where "one_f64 = F64 1"

instance
proof
  fix a b c :: f64
  show "a + b + c = a + (b + c)"
    by (cases a; cases b; cases c) simp
qed

end

text \<open>
  \<open>Orthtree::contains(parent, node)\<close>: walk up from \<open>node\<close> while its depth is above
  the depth of \<open>parent\<close>, then compare.
\<close>

partial_function (option) contains_node_loop ::
  "('a, 'l, 'n) Orthtree \<Rightarrow> int \<Rightarrow> nat \<Rightarrow> int option" where
  "contains_node_loop t nodeParent parentDepth =
     do { n \<leftarrow> nodeAt t nodeParent;
          if depth n > parentDepth
          then contains_node_loop t (nodeParent + parentIndex n) parentDepth
          else Some nodeParent }"

declare contains_node_loop.simps [code]

definition contains_node :: "('a, 'l, 'n) Orthtree \<Rightarrow> int \<Rightarrow> int \<Rightarrow> bool option" where
  "contains_node t par node =
     do { p \<leftarrow> nodeAt t par;
          nodeParent \<leftarrow> contains_node_loop t node (depth p);
          Some (nodeParent = par) }"

text \<open>\<open>Orthtree::canHoldLeafs(node, n)\<close>; \<open>node->leafs.size()\<close> is \<open>leafCount\<close>.\<close>

definition canHoldLeafs :: "('a, 'l, 'n) Orthtree \<Rightarrow> int \<Rightarrow> int \<Rightarrow> bool option" where
  "canHoldLeafs t node n =
     do { nd \<leftarrow> nodeAt t node;
          Some (size_add (leafCount nd) n \<le> nodeCapacity t \<or> depth nd \<ge> maxDepth t) }"

section \<open>Point location\<close>

text \<open>
  The child index that \<open>Orthtree::findChild(node, point)\<close> computes in its loop over
  the axes, and \<open>findChild\<close> itself.
\<close>

definition childIndexOf ::
  "nat \<Rightarrow> ('a::{ord,minus,inverse,numeral}, 'n) NodeInternal \<Rightarrow> 'a list \<Rightarrow> nat" where
  "childIndexOf D n point =
     fold (\<lambda>dim childIndex.
             if point ! dim - position n ! dim \<ge> dimensions n ! dim / 2
             then childIndex + 2 ^ dim else childIndex) [0..<D] 0"

definition findChild ::
  "nat \<Rightarrow> ('a::{ord,minus,inverse,numeral}, 'l, 'n) Orthtree \<Rightarrow> int \<Rightarrow> 'a list \<Rightarrow> int option" where
  "findChild D t node point =
     do { n \<leftarrow> nodeAt t node; children t node (childIndexOf D n point) }"

text \<open>
  \<open>Orthtree::find(hint, point)\<close>.  The first loop walks up; \<open>Some None\<close> is its
  \<open>return nodes().end()\<close> at a root that does not contain the point.  The second loop
  walks down.
\<close>

partial_function (option) find_up ::
  "nat \<Rightarrow> ('a::{ord,minus}, 'l, 'n) Orthtree \<Rightarrow> int \<Rightarrow> 'a list \<Rightarrow> int option option" where
  "find_up D t node point =
     do { c \<leftarrow> contains D t node point;
          if \<not> c
          then do { hp \<leftarrow> hasParent t node;
                    if hp then do { p \<leftarrow> parent t node; find_up D t p point }
                    else Some None }
          else Some (Some node) }"

declare find_up.simps [code]

partial_function (option) find_down ::
  "nat \<Rightarrow> ('a::{ord,minus,inverse,numeral}, 'l, 'n) Orthtree \<Rightarrow> int \<Rightarrow> 'a list \<Rightarrow> int option" where
  "find_down D t node point =
     do { n \<leftarrow> nodeAt t node;
          if hasChildren n
          then do { c \<leftarrow> findChild D t node point; find_down D t c point }
          else Some node }"

declare find_down.simps [code]

definition find_point ::
  "nat \<Rightarrow> ('a::{ord,minus,inverse,numeral}, 'l, 'n) Orthtree \<Rightarrow> int \<Rightarrow> 'a list \<Rightarrow> int option" where
  "find_point D t hint point =
     do { r \<leftarrow> find_up D t hint point;
          case r of None \<Rightarrow> Some (nodes_end t)
                  | Some node \<Rightarrow> find_down D t node point }"

text \<open>\<open>Orthtree::findChild(node, leaf)\<close> and \<open>Orthtree::find(hint, leaf)\<close>.\<close>

fun findChild_leaf_loop ::
  "('a, 'l, 'n) Orthtree \<Rightarrow> int \<Rightarrow> int \<Rightarrow> nat list \<Rightarrow> int option" where
  "findChild_leaf_loop t node leaf [] = Some (nodes_end t)"
| "findChild_leaf_loop t node leaf (childIndex # rest) =
     do { child \<leftarrow> children t node childIndex;
          c \<leftarrow> contains_leaf t child leaf;
          if c then Some child else findChild_leaf_loop t node leaf rest }"

definition findChild_leaf :: "nat \<Rightarrow> ('a, 'l, 'n) Orthtree \<Rightarrow> int \<Rightarrow> int \<Rightarrow> int option" where
  "findChild_leaf D t node leaf = findChild_leaf_loop t node leaf [0..<2 ^ D]"

partial_function (option) find_leaf_up ::
  "('a, 'l, 'n) Orthtree \<Rightarrow> int \<Rightarrow> int \<Rightarrow> int option option" where
  "find_leaf_up t node leaf =
     do { c \<leftarrow> contains_leaf t node leaf;
          if \<not> c
          then do { hp \<leftarrow> hasParent t node;
                    if hp then do { p \<leftarrow> parent t node; find_leaf_up t p leaf }
                    else Some None }
          else Some (Some node) }"

declare find_leaf_up.simps [code]

partial_function (option) find_leaf_down ::
  "nat \<Rightarrow> ('a, 'l, 'n) Orthtree \<Rightarrow> int \<Rightarrow> int \<Rightarrow> int option" where
  "find_leaf_down D t node leaf =
     do { n \<leftarrow> nodeAt t node;
          if hasChildren n
          then do { c \<leftarrow> findChild_leaf D t node leaf; find_leaf_down D t c leaf }
          else Some node }"

declare find_leaf_down.simps [code]

definition find_leaf :: "nat \<Rightarrow> ('a, 'l, 'n) Orthtree \<Rightarrow> int \<Rightarrow> int \<Rightarrow> int option" where
  "find_leaf D t hint leaf =
     do { r \<leftarrow> find_leaf_up t hint leaf;
          case r of None \<Rightarrow> Some (nodes_end t)
                  | Some node \<Rightarrow> find_leaf_down D t node leaf }"

section \<open>Splitting and merging\<close>

text \<open>
  \<open>Orthtree::allocChildren(node)\<close>: \<open>2^Dim\<close> copies of
  \<open>NodeInternal(node->position, node->dimensions)\<close> are inserted after the node, and
  the loop sets up child number \<open>index\<close>.
\<close>

definition allocChild ::
  "nat \<Rightarrow> ('a::{plus,inverse,numeral}, 'n) NodeInternal \<Rightarrow> nat \<Rightarrow> ('a, 'n) NodeInternal
   \<Rightarrow> ('a, 'n) NodeInternal" where
  "allocChild D n index fresh =
     fold (\<lambda>dim child.
             let child1 = child\<lparr>dimensions := (dimensions child)[dim := dimensions child ! dim / 2]\<rparr>
             in if bit index dim
                then child1\<lparr>position :=
                       (position child1)[dim := position child1 ! dim + dimensions n ! dim / 2]\<rparr>
                else child1)
          [0..<D]
          (fresh\<lparr>depth := depth n + 1,
                 parentIndex := - (int index + 1),
                 siblingIndex := index,
                 leafIndex := leafIndex n + leafCount n\<rparr>)"

definition allocChildren ::
  "nat \<Rightarrow> ('a::{plus,inverse,numeral}, 'l, 'n::default) Orthtree \<Rightarrow> int
   \<Rightarrow> ('a, 'l, 'n) Orthtree option" where
  "allocChildren D t node =
     do { n \<leftarrow> nodeAt t node;
          let fresh = NodeInternal_new D (position n) (dimensions n) default;
              new = map (\<lambda>index. allocChild D n index fresh) [0..<2 ^ D]
          in Some (t\<lparr>nodes := take (nat node + 1) (nodes t) @ new @ drop (nat node + 1) (nodes t)\<rparr>) }"

text \<open>\<open>Orthtree::freeChildren(node)\<close>: erase from \<open>children[0]\<close> up to \<open>children[2^Dim]\<close>.\<close>

definition freeChildren :: "nat \<Rightarrow> ('a, 'l, 'n) Orthtree \<Rightarrow> int \<Rightarrow> ('a, 'l, 'n) Orthtree option" where
  "freeChildren D t node =
     do { firstChild \<leftarrow> children t node 0;
          lastChild \<leftarrow> children t node (2 ^ D);
          if 0 \<le> firstChild \<and> firstChild \<le> lastChild \<and> lastChild \<le> nodes_end t
          then Some (t\<lparr>nodes := take (nat firstChild) (nodes t) @ drop (nat lastChild) (nodes t)\<rparr>)
          else None }"

text \<open>
  \<open>Orthtree::updateAncestorChildData(node, childCountChange, updateParentIndices)\<close>.
  The inner loop runs over the sibling indices after the one of the node it came from;
  \<open>parent->children[siblingIndex]\<close> is read after the child index has been changed.
\<close>

fun updateSiblings ::
  "('a, 'l, 'n) Orthtree \<Rightarrow> int \<Rightarrow> int \<Rightarrow> bool \<Rightarrow> nat list \<Rightarrow> ('a, 'l, 'n) Orthtree option" where
  "updateSiblings t par childCountChange updateParentIndices [] = Some t"
| "updateSiblings t par childCountChange updateParentIndices (sibling # rest) =
     do { p \<leftarrow> nodeAt t par;
          t1 \<leftarrow> (if sibling < length (childIndices p)
                then nodeUpdate t par (\<lambda>p. p\<lparr>childIndices := (childIndices p)
                       [sibling := size_add (childIndices p ! sibling) childCountChange]\<rparr>)
                else None);
          child \<leftarrow> children t1 par sibling;
          t2 \<leftarrow> (if updateParentIndices
                then nodeUpdate t1 child (\<lambda>c. c\<lparr>parentIndex := parentIndex c - childCountChange\<rparr>)
                else Some t1);
          updateSiblings t2 par childCountChange updateParentIndices rest }"

partial_function (option) updateAncestorChildData ::
  "nat \<Rightarrow> ('a, 'l, 'n) Orthtree \<Rightarrow> int \<Rightarrow> int \<Rightarrow> bool \<Rightarrow> ('a, 'l, 'n) Orthtree option" where
  "updateAncestorChildData D t node childCountChange updateParentIndices =
     do { hp \<leftarrow> hasParent t node;
          if hp
          then do { n \<leftarrow> nodeAt t node;
                    par \<leftarrow> parent t node;
                    t1 \<leftarrow> updateSiblings t par childCountChange updateParentIndices
                           [siblingIndex n + 1..<2 ^ D];
                    p \<leftarrow> nodeAt t1 par;
                    t2 \<leftarrow> (if 2 ^ D < length (childIndices p)
                          then nodeUpdate t1 par (\<lambda>p. p\<lparr>childIndices := (childIndices p)
                                 [2 ^ D := size_add (childIndices p ! (2 ^ D)) childCountChange]\<rparr>)
                          else None);
                    updateAncestorChildData D t2 par childCountChange updateParentIndices }
          else Some t }"

declare updateAncestorChildData.simps [code]

text \<open>
  \<open>Orthtree::updateNodeChildData(node, childrenCreated, updateParentIndices)\<close>; the
  result is the new tree and the returned change of the child count.
\<close>

definition updateNodeChildData ::
  "nat \<Rightarrow> ('a, 'l, 'n) Orthtree \<Rightarrow> int \<Rightarrow> bool \<Rightarrow> bool \<Rightarrow> (('a, 'l, 'n) Orthtree \<times> int) option" where
  "updateNodeChildData D t node childrenCreated updateParentIndices =
     do { n \<leftarrow> nodeAt t node;
          old_last \<leftarrow> (if 2 ^ D < length (childIndices n)
                        then Some (childIndices n ! (2 ^ D)) else None);
          let newIndices = (if childrenCreated then [1..<2 ^ D + 2] else replicate (2 ^ D + 1) 1);
          let childCountChange = - int old_last + int (newIndices ! (2 ^ D));
          t1 \<leftarrow> nodeUpdate t node
                  (\<lambda>n. n\<lparr>hasChildren := childrenCreated, childIndices := newIndices\<rparr>);
          t2 \<leftarrow> updateAncestorChildData D t1 node childCountChange updateParentIndices;
          Some (t2, childCountChange) }"

section \<open>Leaf bookkeeping\<close>

text \<open>
  The loop of \<open>insertAt\<close>, \<open>eraseAt\<close> and \<open>moveAt\<close> that adds \<open>d\<close> (one or minus one) to
  the \<open>leafCount\<close> of a node and of each of its ancestors.
\<close>

partial_function (option) addLeafCount ::
  "('a, 'l, 'n) Orthtree \<Rightarrow> int \<Rightarrow> int \<Rightarrow> ('a, 'l, 'n) Orthtree option" where
  "addLeafCount t node d =
     do { t1 \<leftarrow> nodeUpdate t node (\<lambda>n. n\<lparr>leafCount := size_add (leafCount n) d\<rparr>);
          hp \<leftarrow> hasParent t1 node;
          if hp then do { p \<leftarrow> parent t1 node; addLeafCount t1 p d } else Some t1 }"

declare addLeafCount.simps [code]

text \<open>
  The loops that add \<open>d\<close> to the \<open>leafIndex\<close> of the nodes \<open>firstNode + 1, ..., lastNode\<close>: all the
  nodes after \<open>node\<close> in \<open>insertAt\<close> and \<open>eraseAt\<close>, the nodes between source and
  destination in \<open>moveAt\<close>.
\<close>

definition addLeafIndex ::
  "('a, 'l, 'n) Orthtree \<Rightarrow> int \<Rightarrow> int \<Rightarrow> int \<Rightarrow> ('a, 'l, 'n) Orthtree option" where
  "addLeafIndex t firstNode lastNode d =
     (if 0 \<le> firstNode \<and> firstNode \<le> lastNode \<and> lastNode < nodes_end t
      then Some (t\<lparr>nodes :=
             take (nat firstNode + 1) (nodes t) @
             map (\<lambda>n. n\<lparr>leafIndex := size_add (leafIndex n) d\<rparr>)
               (take (nat lastNode - nat firstNode) (drop (nat firstNode + 1) (nodes t))) @
             drop (nat lastNode + 1) (nodes t)\<rparr>)
      else None)"

text \<open>\<open>Orthtree::insertAt(node, value, position)\<close>.\<close>

definition insertAt ::
  "('a, 'l, 'n) Orthtree \<Rightarrow> int \<Rightarrow> 'l \<Rightarrow> 'a list \<Rightarrow> (('a, 'l, 'n) Orthtree \<times> int) option" where
  "insertAt t node v pos =
     do { n \<leftarrow> nodeAt t node;
          let e = leafs_end_of n;
          t1 \<leftarrow> (if e \<le> leafs_end t
                then Some (t\<lparr>leafs := take (nat e) (leafs t) @
                                      [\<lparr>lposition = pos, lvalue = v\<rparr>] @ drop (nat e) (leafs t)\<rparr>)
                else None);
          t2 \<leftarrow> addLeafIndex t1 node (nodes_end t1 - 1) 1;
          t3 \<leftarrow> addLeafCount t2 node 1;
          n3 \<leftarrow> nodeAt t3 node;
          Some (t3, leafs_end_of n3 - 1) }"

text \<open>\<open>Orthtree::eraseAt(node, leaf)\<close>.\<close>

definition eraseAt ::
  "('a, 'l, 'n) Orthtree \<Rightarrow> int \<Rightarrow> int \<Rightarrow> (('a, 'l, 'n) Orthtree \<times> int) option" where
  "eraseAt t node leaf =
     do { t1 \<leftarrow> (if 0 \<le> leaf \<and> leaf < leafs_end t
                then Some (t\<lparr>leafs := take (nat leaf) (leafs t) @ drop (nat leaf + 1) (leafs t)\<rparr>)
                else None);
          t2 \<leftarrow> addLeafIndex t1 node (nodes_end t1 - 1) (- 1);
          t3 \<leftarrow> addLeafCount t2 node (- 1);
          Some (t3, leaf) }"

text \<open>
  \<open>Orthtree::moveAt(sourceNode, destNode, sourceLeaf)\<close>: a left or right rotation of
  the leaves between the source leaf and the end of the destination's leaves, then the
  leaf counts of both ancestor chains, then the leaf indices of the nodes in between.
\<close>

definition moveAt ::
  "('a, 'l, 'n) Orthtree \<Rightarrow> int \<Rightarrow> int \<Rightarrow> int \<Rightarrow> (('a, 'l, 'n) Orthtree \<times> int) option" where
  "moveAt t sourceNode destNode sourceLeaf =
     do { dn \<leftarrow> nodeAt t destNode;
          let destLeaf = leafs_end_of dn;
          (t1, result) \<leftarrow>
            (if destLeaf > sourceLeaf
             then (if 0 \<le> sourceLeaf \<and> destLeaf \<le> leafs_end t
                   then Some (t\<lparr>leafs :=
                          take (nat sourceLeaf) (leafs t) @
                          take (nat destLeaf - nat sourceLeaf - 1) (drop (nat sourceLeaf + 1) (leafs t)) @
                          [leafs t ! nat sourceLeaf] @
                          drop (nat destLeaf) (leafs t)\<rparr>, destLeaf - 1)
                   else None)
             else if destLeaf < sourceLeaf
             then (if 0 \<le> destLeaf \<and> sourceLeaf < leafs_end t
                   then Some (t\<lparr>leafs :=
                          take (nat destLeaf) (leafs t) @
                          [leafs t ! nat sourceLeaf] @
                          take (nat sourceLeaf - nat destLeaf) (drop (nat destLeaf) (leafs t)) @
                          drop (nat sourceLeaf + 1) (leafs t)\<rparr>, destLeaf)
                   else None)
             else Some (t, sourceLeaf));
          t2 \<leftarrow> addLeafCount t1 destNode 1;
          t3 \<leftarrow> addLeafCount t2 sourceNode (- 1);
          let nodeInverted = (sourceNode \<ge> destNode);
          let leafIndexOffset = (if nodeInverted then 1 else - 1);
          let firstNode = (if nodeInverted then destNode else sourceNode);
          let lastNode = (if nodeInverted then sourceNode else destNode);
          t4 \<leftarrow> addLeafIndex t3 firstNode lastNode leafIndexOffset;
          Some (t4, result) }"

text \<open>\<open>Orthtree::distributeLeafs(node)\<close>: the first leaf of the node is moved each time.\<close>

partial_function (option) distributeLeafs_loop ::
  "nat \<Rightarrow> ('a::{ord,minus,inverse,numeral}, 'l, 'n) Orthtree \<Rightarrow> int \<Rightarrow> nat
   \<Rightarrow> ('a, 'l, 'n) Orthtree option" where
  "distributeLeafs_loop D t node index =
     do { n \<leftarrow> nodeAt t node;
          if index < leafCount n
          then do { let leaf = leafs_begin n;
                    l \<leftarrow> leafAt t leaf;
                    child \<leftarrow> findChild D t node (lposition l);
                    (t1, _) \<leftarrow> moveAt t node child leaf;
                    distributeLeafs_loop D t1 node (index + 1) }
          else Some t }"

declare distributeLeafs_loop.simps [code]

definition distributeLeafs ::
  "nat \<Rightarrow> ('a::{ord,minus,inverse,numeral}, 'l, 'n) Orthtree \<Rightarrow> int \<Rightarrow> ('a, 'l, 'n) Orthtree option" where
  "distributeLeafs D t node = distributeLeafs_loop D t node 0"

text \<open>\<open>Orthtree::createChildren(node)\<close> and \<open>Orthtree::destroyChildren(node)\<close>.\<close>

definition createChildren ::
  "nat \<Rightarrow> ('a::{ord,minus,inverse,numeral}, 'l, 'n::default) Orthtree \<Rightarrow> int
   \<Rightarrow> ('a, 'l, 'n) Orthtree option" where
  "createChildren D t node =
     do { t1 \<leftarrow> allocChildren D t node;
          (t2, _) \<leftarrow> updateNodeChildData D t1 node True True;
          distributeLeafs D t2 node }"

definition destroyChildren ::
  "nat \<Rightarrow> ('a, 'l, 'n) Orthtree \<Rightarrow> int \<Rightarrow> ('a, 'l, 'n) Orthtree option" where
  "destroyChildren D t node =
     do { t1 \<leftarrow> freeChildren D t node;
          (t2, _) \<leftarrow> updateNodeChildData D t1 node False True;
          Some t2 }"

section \<open>Construction\<close>

text \<open>
  The constructor \<open>Orthtree(position, dimensions, nodeCapacity, maxDepth, autoAdjust)\<close>:
  no leaves and one root node.
\<close>

definition Orthtree_new ::
  "nat \<Rightarrow> 'a list \<Rightarrow> 'a list \<Rightarrow> nat \<Rightarrow> nat \<Rightarrow> bool \<Rightarrow> ('a, 'l, 'n::default) Orthtree" where
  "Orthtree_new D pos dims cap maxD adj =
     \<lparr>leafs = [], nodes = [NodeInternal_new D pos dims default],
      nodeCapacity = cap, maxDepth = maxD, autoAdjust = adj\<rparr>"

section \<open>Single-element mutators\<close>

text \<open>
  \<open>Orthtree::insert(hint, value, position)\<close>; the result is the new tree, the node
  handle and the leaf handle.
\<close>

partial_function (option) insert_loop ::
  "nat \<Rightarrow> ('a::{ord,minus,inverse,numeral}, 'l, 'n::default) Orthtree \<Rightarrow> int \<Rightarrow> 'a list
   \<Rightarrow> (('a, 'l, 'n) Orthtree \<times> int) option" where
  "insert_loop D t node pos =
     (if autoAdjust t
      then do { c \<leftarrow> canHoldLeafs t node 1;
                if \<not> c
                then do { t1 \<leftarrow> createChildren D t node;
                          node1 \<leftarrow> find_point D t1 node pos;
                          insert_loop D t1 node1 pos }
                else Some (t, node) }
      else Some (t, node))"

declare insert_loop.simps [code]

definition insert_leaf ::
  "nat \<Rightarrow> ('a::{ord,minus,inverse,numeral}, 'l, 'n::default) Orthtree \<Rightarrow> int \<Rightarrow> 'l \<Rightarrow> 'a list
   \<Rightarrow> (('a, 'l, 'n) Orthtree \<times> int \<times> int) option" where
  "insert_leaf D t hint v pos =
     do { node \<leftarrow> find_point D t hint pos;
          if node = nodes_end t then Some (t, nodes_end t, leafs_end t)
          else do { (t1, node1) \<leftarrow> insert_loop D t node pos;
                    (t2, leaf) \<leftarrow> insertAt t1 node1 v pos;
                    Some (t2, node1, leaf) } }"

text \<open>\<open>Orthtree::erase(hint, leaf)\<close>.\<close>

partial_function (option) erase_loop ::
  "nat \<Rightarrow> ('a, 'l, 'n) Orthtree \<Rightarrow> int \<Rightarrow> (('a, 'l, 'n) Orthtree \<times> int) option" where
  "erase_loop D t node =
     (if autoAdjust t
      then do { hp \<leftarrow> hasParent t node;
                if hp
                then do { par \<leftarrow> parent t node;
                          c \<leftarrow> canHoldLeafs t par (- 1);
                          if c
                          then do { t1 \<leftarrow> destroyChildren D t par; erase_loop D t1 par }
                          else Some (t, node) }
                else Some (t, node) }
      else Some (t, node))"

declare erase_loop.simps [code]

definition erase ::
  "nat \<Rightarrow> ('a, 'l, 'n) Orthtree \<Rightarrow> int \<Rightarrow> int \<Rightarrow> (('a, 'l, 'n) Orthtree \<times> int \<times> int) option" where
  "erase D t hint leaf =
     do { node \<leftarrow> find_leaf D t hint leaf;
          if node = nodes_end t then Some (t, nodes_end t, leafs_end t)
          else do { (t1, node1) \<leftarrow> erase_loop D t node;
                    (t2, leaf1) \<leftarrow> eraseAt t1 node1 leaf;
                    Some (t2, node1, leaf1) } }"

text \<open>
  \<open>Orthtree::move(hint, leaf, position)\<close>: the loop that merges above the source, the
  loop that splits the destination, then the leaf's position is overwritten and
  \<open>moveAt\<close> relocates it.  The result is the new tree, the source and destination node
  handles and the leaf handle.
\<close>

partial_function (option) move_merge_loop ::
  "nat \<Rightarrow> ('a, 'l, 'n) Orthtree \<Rightarrow> int \<Rightarrow> int \<Rightarrow> (('a, 'l, 'n) Orthtree \<times> int \<times> int) option" where
  "move_merge_loop D t source dest =
     do { hp \<leftarrow> hasParent t source;
          if hp
          then do { par \<leftarrow> parent t source;
                    c \<leftarrow> canHoldLeafs t par (- 1);
                    if c
                    then do { inside \<leftarrow> contains_node t par dest;
                              if \<not> inside
                              then do { let dest1 = (if dest > source then dest - 2 ^ D else dest);
                                        t1 \<leftarrow> destroyChildren D t par;
                                        move_merge_loop D t1 par dest1 }
                              else Some (t, source, dest) }
                    else Some (t, source, dest) }
          else Some (t, source, dest) }"

declare move_merge_loop.simps [code]

partial_function (option) move_split_loop ::
  "nat \<Rightarrow> ('a::{ord,minus,inverse,numeral}, 'l, 'n::default) Orthtree \<Rightarrow> int \<Rightarrow> int \<Rightarrow> 'a list
   \<Rightarrow> (('a, 'l, 'n) Orthtree \<times> int \<times> int) option" where
  "move_split_loop D t source dest pos =
     do { c \<leftarrow> canHoldLeafs t dest 1;
          if \<not> c \<and> dest \<noteq> source
          then do { let source1 = (if source > dest then source + 2 ^ D else source);
                    t1 \<leftarrow> createChildren D t dest;
                    dest1 \<leftarrow> findChild D t1 dest pos;
                    move_split_loop D t1 source1 dest1 pos }
          else Some (t, source, dest) }"

declare move_split_loop.simps [code]

definition move ::
  "nat \<Rightarrow> ('a::{ord,minus,inverse,numeral}, 'l, 'n::default) Orthtree \<Rightarrow> int \<Rightarrow> int \<Rightarrow> 'a list
   \<Rightarrow> (('a, 'l, 'n) Orthtree \<times> int \<times> int \<times> int) option" where
  "move D t hint leaf pos =
     do { source \<leftarrow> find_leaf D t hint leaf;
          dest \<leftarrow> find_point D t hint pos;
          if source = nodes_end t \<or> dest = nodes_end t
          then Some (t, nodes_end t, nodes_end t, leafs_end t)
          else do { (t2, source2, dest2) \<leftarrow>
                      (if autoAdjust t
                       then do { (t1, source1, dest1) \<leftarrow> move_merge_loop D t source dest;
                                 move_split_loop D t1 source1 dest1 pos }
                       else Some (t, source, dest));
                    t3 \<leftarrow> (if 0 \<le> leaf \<and> leaf < leafs_end t2
                          then Some (t2\<lparr>leafs := (leafs t2)
                                 [nat leaf := (leafs t2 ! nat leaf)\<lparr>lposition := pos\<rparr>]\<rparr>)
                          else None);
                    (t4, leaf4) \<leftarrow> moveAt t3 source2 dest2 leaf;
                    Some (t4, source2, dest2, leaf4) } }"

section \<open>Adjust\<close>

text \<open>
  \<open>Orthtree::adjust(node)\<close>.  \<open>popOffsets\<close> is the loop that leaves \<open>k\<close> levels of the
  stack of parent offsets (the head of the list is the top); \<open>adjust_loop\<close> is the main
  loop over the nodes of the new tree, with \<open>t\<close> the tree being adjusted and \<open>new\<close> the
  local \<open>newOrthtree\<close>.
\<close>

fun popOffsets :: "nat \<Rightarrow> int list \<Rightarrow> int list option" where
  "popOffsets 0 st = Some st"
| "popOffsets (Suc k) (lastTop # newTop # rest) = popOffsets k ((newTop + lastTop) # rest)"
| "popOffsets (Suc k) _ = None"

partial_function (option) adjust_loop ::
  "nat \<Rightarrow> ('a::{ord,minus,inverse,numeral}, 'l, 'n::default) Orthtree \<Rightarrow> int \<Rightarrow> nat
   \<Rightarrow> ('a, 'l, 'n) Orthtree \<Rightarrow> int \<Rightarrow> int \<Rightarrow> int list \<Rightarrow> nat \<Rightarrow> bool
   \<Rightarrow> (('a, 'l, 'n) Orthtree \<times> bool) option" where
  "adjust_loop D t node leafOffset new oldNode newNode parentOffsets dpth result =
     (if newNode \<noteq> nodes_end new
      then do {
        nn \<leftarrow> nodeAt new newNode;
        st \<leftarrow> (if depth nn > dpth then Some (replicate (depth nn - dpth) 0 @ parentOffsets)
               else popOffsets (dpth - depth nn) parentOffsets);
        topOffset \<leftarrow> (case st of [] \<Rightarrow> None | x # _ \<Rightarrow> Some x);
        new1 \<leftarrow> nodeUpdate new newNode (\<lambda>n. n\<lparr>parentIndex := parentIndex n + topOffset\<rparr>);
        hold \<leftarrow> canHoldLeafs new1 newNode 0;
        (new2, oldNode2, st2, result2) \<leftarrow>
          (if \<not> hasChildren nn \<and> \<not> hold
           then do { a \<leftarrow> allocChildren D new1 newNode;
                     (b, change) \<leftarrow> updateNodeChildData D a newNode True False;
                     c \<leftarrow> distributeLeafs D b newNode;
                     Some (c, oldNode, (topOffset - change) # tl st, True) }
           else if hasChildren nn \<and> hold
           then do { (b, change) \<leftarrow> updateNodeChildData D new1 newNode False False;
                     next_sibling \<leftarrow> children t oldNode (2 ^ D);
                     Some (b, next_sibling - 1, (topOffset - change) # tl st, True) }
           else Some (new1, oldNode, st, result));
        let newNode2 = newNode + 1;
        (new3, oldNode3) \<leftarrow>
          (if newNode2 = nodes_end new2
           then do { stop \<leftarrow> children t node (2 ^ D);
                     if oldNode2 + 1 \<noteq> stop
                     then do { on \<leftarrow> nodeAt t (oldNode2 + 1);
                               Some (new2\<lparr>nodes := nodes new2 @
                                       [on\<lparr>leafIndex := size_add (leafIndex on) (- int leafOffset)\<rparr>]\<rparr>,
                                     oldNode2 + 1) }
                     else Some (new2, oldNode2) }
           else Some (new2, oldNode2));
        adjust_loop D t node leafOffset new3 oldNode3 newNode2 st2 (depth nn) result2 }
      else Some (new, result))"

declare adjust_loop.simps [code]

definition adjust ::
  "nat \<Rightarrow> ('a::{ord,minus,inverse,numeral,zero}, 'l, 'n::default) Orthtree \<Rightarrow> int
   \<Rightarrow> (('a, 'l, 'n) Orthtree \<times> bool) option" where
  "adjust D t node =
     do { n \<leftarrow> nodeAt t node;
          let leafOffset = leafIndex n;
          new0 \<leftarrow> (if leafs_end_of n \<le> leafs_end t
                   then Some ((Orthtree_new D (replicate D 0) (replicate D 0)
                                 (nodeCapacity t) (maxDepth t) False)
                               \<lparr>leafs := take (leafCount n) (drop (leafIndex n) (leafs t)),
                                nodes := [n\<lparr>leafIndex := 0\<rparr>]\<rparr>)
                   else None);
          (new, result) \<leftarrow> adjust_loop D t node leafOffset new0 node 0 [0] (depth n) False;
          firstChild \<leftarrow> children t node 0;
          lastChild \<leftarrow> children t node (2 ^ D);
          let change = nodes_end new - (1 + (lastChild - firstChild));
          resized \<leftarrow>
            (if change < 0
             then (if node + \<bar>change\<bar> \<le> nodes_end t
                   then Some (take (nat node) (nodes t) @ drop (nat (node + \<bar>change\<bar>)) (nodes t))
                   else None)
             else if change > 0
             then Some (take (nat node) (nodes t) @
                        replicate (nat \<bar>change\<bar>)
                          (NodeInternal_new D (replicate D 0) (replicate D 0) default) @
                        drop (nat node) (nodes t))
             else Some (nodes t));
          let newNodes = (if leafOffset \<noteq> 0
                          then map (\<lambda>m. m\<lparr>leafIndex := leafIndex m + leafOffset\<rparr>) (nodes new)
                          else nodes new);
          copied \<leftarrow> (if nat node + length newNodes \<le> length resized
                      then Some (take (nat node) resized @ newNodes @
                                 drop (nat node + length newNodes) resized)
                      else None);
          let t1 = t\<lparr>nodes := copied\<rparr>;
          n1 \<leftarrow> nodeAt t1 node;
          t2 \<leftarrow> (if leafIndex n1 + length (leafs new) \<le> length (leafs t1)
                then Some (t1\<lparr>leafs := take (leafIndex n1) (leafs t1) @ leafs new @
                                       drop (leafIndex n1 + length (leafs new)) (leafs t1)\<rparr>)
                else None);
          t3 \<leftarrow> updateAncestorChildData D t2 node (change + 1) True;
          Some (t3, result) }"

text \<open>\<open>Orthtree::adjust()\<close> adjusts the root.\<close>

definition adjust_root ::
  "nat \<Rightarrow> ('a::{ord,minus,inverse,numeral,zero}, 'l, 'n::default) Orthtree
   \<Rightarrow> (('a, 'l, 'n) Orthtree \<times> bool) option" where
  "adjust_root D t = adjust D t 0"

section \<open>Bulk mutators\<close>

text \<open>
  \<open>Orthtree::insert(hint, leafBegin, leafEnd, positionBegin, positionEnd)\<close>: the loop
  reads one position for each leaf value (\<open>positionEnd\<close> is unused), with \<open>autoAdjust\<close>
  switched off; then \<open>adjust()\<close>, then \<open>autoAdjust(true)\<close>.
\<close>

fun insert_range_loop ::
  "nat \<Rightarrow> ('a::{ord,minus,inverse,numeral}, 'l, 'n::default) Orthtree \<Rightarrow> int \<Rightarrow> 'l list
   \<Rightarrow> 'a list list \<Rightarrow> ('a, 'l, 'n) Orthtree option" where
  "insert_range_loop D t hint [] ps = Some t"
| "insert_range_loop D t hint (v # vs) [] = None"
| "insert_range_loop D t hint (v # vs) (p # ps) =
     do { (t1, _, _) \<leftarrow> insert_leaf D t hint v p; insert_range_loop D t1 hint vs ps }"

definition insert_range ::
  "nat \<Rightarrow> ('a::{ord,minus,inverse,numeral,zero}, 'l, 'n::default) Orthtree \<Rightarrow> int \<Rightarrow> 'l list
   \<Rightarrow> 'a list list \<Rightarrow> ('a, 'l, 'n) Orthtree option" where
  "insert_range D t hint vs ps =
     do { t1 \<leftarrow> insert_range_loop D (t\<lparr>autoAdjust := False\<rparr>) hint vs ps;
          (t2, _) \<leftarrow> adjust_root D t1;
          Some (t2\<lparr>autoAdjust := True\<rparr>) }"

text \<open>
  \<open>Orthtree::erase(hint, leafBegin, leafEnd)\<close>: the reverse iterator \<open>leafIt\<close> starts at
  index \<open>leafEnd - 1\<close>, each step erases the leaf at its index, and the loop ends when it
  equals \<open>leafBegin.reverse()\<close>, of index \<open>leafBegin - 1\<close>.
\<close>

partial_function (option) erase_range_loop ::
  "nat \<Rightarrow> ('a, 'l, 'n) Orthtree \<Rightarrow> int \<Rightarrow> int \<Rightarrow> int \<Rightarrow> ('a, 'l, 'n) Orthtree option" where
  "erase_range_loop D t hint leafIt leafBegin =
     (if leafIt \<noteq> leafBegin - 1
      then do { (t1, _, _) \<leftarrow> erase D t hint leafIt;
                erase_range_loop D t1 hint (leafIt - 1) leafBegin }
      else Some t)"

declare erase_range_loop.simps [code]

definition erase_range ::
  "nat \<Rightarrow> ('a::{ord,minus,inverse,numeral,zero}, 'l, 'n::default) Orthtree \<Rightarrow> int \<Rightarrow> int \<Rightarrow> int
   \<Rightarrow> ('a, 'l, 'n) Orthtree option" where
  "erase_range D t hint leafBegin leafEnd =
     do { t1 \<leftarrow> erase_range_loop D (t\<lparr>autoAdjust := False\<rparr>) hint (leafEnd - 1) leafBegin;
          (t2, _) \<leftarrow> adjust_root D t1;
          Some (t2\<lparr>autoAdjust := True\<rparr>) }"

text \<open>
  \<open>Orthtree::move(hint, leafBegin, leafEnd, positionBegin, positionEnd)\<close>.
  \<open>skip_processed\<close> is the loop \<open>while (processed[processedIndex])\<close>, which reads the
  vector of flags at \<open>processedIndex\<close>; \<open>move_range_loop\<close> is the loop over the
  \<open>numLeafs\<close> leaves.
\<close>

partial_function (option) skip_processed :: "bool list \<Rightarrow> int \<Rightarrow> int \<Rightarrow> (int \<times> int) option" where
  "skip_processed processed processedIndex leafIt =
     (if 0 \<le> processedIndex \<and> processedIndex < int (length processed)
      then (if processed ! nat processedIndex
            then skip_processed processed (processedIndex + 1) (leafIt + 1)
            else Some (processedIndex, leafIt))
      else None)"

declare skip_processed.simps [code]

definition mark_processed :: "bool list \<Rightarrow> int \<Rightarrow> int \<Rightarrow> int \<Rightarrow> bool list option" where
  "mark_processed processed processedIndex newProcessedIndex numLeafs =
     (if newProcessedIndex \<le> processedIndex
      then (if 0 \<le> processedIndex \<and> processedIndex < int (length processed)
            then Some (processed[nat processedIndex := True]) else None)
      else if newProcessedIndex < numLeafs
      then (if 0 \<le> processedIndex \<and> newProcessedIndex < int (length processed)
            then Some (take (nat processedIndex) processed @
                       take (nat newProcessedIndex - nat processedIndex)
                         (drop (nat processedIndex + 1) processed) @
                       [True] @ drop (nat newProcessedIndex + 1) processed)
            else None)
      else (if 0 \<le> processedIndex \<and> processedIndex + 1 \<le> int (length processed)
            then Some (if processedIndex + 1 = int (length processed) then processed
                       else take (nat processedIndex) processed @
                            drop (nat processedIndex + 1) processed @ [last processed])
            else None))"

fun move_range_loop ::
  "nat \<Rightarrow> ('a::{ord,minus,inverse,numeral}, 'l, 'n::default) Orthtree \<Rightarrow> int \<Rightarrow> int \<Rightarrow> int
   \<Rightarrow> bool list \<Rightarrow> int \<Rightarrow> int \<Rightarrow> nat \<Rightarrow> 'a list list \<Rightarrow> ('a, 'l, 'n) Orthtree option" where
  "move_range_loop D t hint leafBegin numLeafs processed processedIndex leafIt 0 ps = Some t"
| "move_range_loop D t hint leafBegin numLeafs processed processedIndex leafIt (Suc k) [] = None"
| "move_range_loop D t hint leafBegin numLeafs processed processedIndex leafIt (Suc k) (p # ps) =
     do { (t1, _, _, newLeafIt) \<leftarrow> move D t hint leafIt p;
          let newProcessedIndex = newLeafIt - leafBegin;
          processed1 \<leftarrow> mark_processed processed processedIndex newProcessedIndex numLeafs;
          (processedIndex1, leafIt1) \<leftarrow> skip_processed processed1 processedIndex leafIt;
          move_range_loop D t1 hint leafBegin numLeafs processed1 processedIndex1 leafIt1 k ps }"

definition move_range ::
  "nat \<Rightarrow> ('a::{ord,minus,inverse,numeral,zero}, 'l, 'n::default) Orthtree \<Rightarrow> int \<Rightarrow> int \<Rightarrow> int
   \<Rightarrow> 'a list list \<Rightarrow> ('a, 'l, 'n) Orthtree option" where
  "move_range D t hint leafBegin leafEnd ps =
     (let numLeafs = leafEnd - leafBegin in
      if numLeafs < 0 then None
      else do { t1 \<leftarrow> move_range_loop D (t\<lparr>autoAdjust := False\<rparr>) hint leafBegin numLeafs
                        (replicate (nat numLeafs) False) 0 leafBegin (nat numLeafs) ps;
                (t2, _) \<leftarrow> adjust_root D t1;
                Some (t2\<lparr>autoAdjust := True\<rparr>) })"

text \<open>
  The bulk constructor \<open>Orthtree(position, dimensions, leafBegin, leafEnd, positionBegin,
  positionEnd, nodeCapacity, maxDepth, autoAdjust)\<close>: all the leaves are appended and
  given to the root, then every node that cannot hold its leaves is split, its leaves
  sorted into one vector for each child (\<open>bucket_leafs\<close>) and copied back child after
  child (\<open>assign_buckets\<close>).
\<close>

fun zip_leafs :: "'l list \<Rightarrow> 'a list list \<Rightarrow> ('a, 'l) LeafInternal list option" where
  "zip_leafs [] ps = Some []"
| "zip_leafs (v # vs) [] = None"
| "zip_leafs (v # vs) (p # ps) =
     do { rest \<leftarrow> zip_leafs vs ps; Some (\<lparr>lposition = p, lvalue = v\<rparr> # rest) }"

fun bucket_leafs ::
  "nat \<Rightarrow> ('a::{ord,minus,inverse,numeral}, 'l, 'n) Orthtree \<Rightarrow> int \<Rightarrow> ('a, 'l) LeafInternal list
   \<Rightarrow> ('a, 'l) LeafInternal list list \<Rightarrow> ('a, 'l) LeafInternal list list option" where
  "bucket_leafs D t node [] newLeafsByChild = Some newLeafsByChild"
| "bucket_leafs D t node (leaf # rest) newLeafsByChild =
     do { child \<leftarrow> findChild D t node (lposition leaf);
          c \<leftarrow> nodeAt t child;
          if siblingIndex c < length newLeafsByChild
          then bucket_leafs D t node rest
                 (newLeafsByChild[siblingIndex c := newLeafsByChild ! siblingIndex c @ [leaf]])
          else None }"

fun assign_buckets ::
  "('a, 'l, 'n) Orthtree \<Rightarrow> int \<Rightarrow> nat \<Rightarrow> nat \<Rightarrow> ('a, 'l) LeafInternal list list
   \<Rightarrow> ('a, 'l, 'n) Orthtree option" where
  "assign_buckets t node leafIdx k [] = Some t"
| "assign_buckets t node leafIdx k (newLeafs # rest) =
     do { child \<leftarrow> children t node k;
          t1 \<leftarrow> nodeUpdate t child (\<lambda>c. c\<lparr>leafIndex := leafIdx, leafCount := length newLeafs\<rparr>);
          t2 \<leftarrow> (if leafIdx + length newLeafs \<le> length (leafs t1)
                then Some (t1\<lparr>leafs := take leafIdx (leafs t1) @ newLeafs @
                                       drop (leafIdx + length newLeafs) (leafs t1)\<rparr>)
                else None);
          assign_buckets t2 node (leafIdx + length newLeafs) (k + 1) rest }"

partial_function (option) construct_loop ::
  "nat \<Rightarrow> ('a::{ord,minus,inverse,numeral}, 'l, 'n::default) Orthtree \<Rightarrow> int
   \<Rightarrow> ('a, 'l, 'n) Orthtree option" where
  "construct_loop D t node =
     (if node \<noteq> nodes_end t
      then do { hold \<leftarrow> canHoldLeafs t node 0;
                t3 \<leftarrow> (if \<not> hold
                      then do { t1 \<leftarrow> allocChildren D t node;
                                (t2, _) \<leftarrow> updateNodeChildData D t1 node True True;
                                n \<leftarrow> nodeAt t2 node;
                                nodeLeafs \<leftarrow> (if leafIndex n + leafCount n \<le> length (leafs t2)
                                             then Some (take (leafCount n) (drop (leafIndex n) (leafs t2)))
                                             else None);
                                newLeafsByChild \<leftarrow>
                                  bucket_leafs D t2 node nodeLeafs (replicate (2 ^ D) []);
                                assign_buckets t2 node (leafIndex n) 0 newLeafsByChild }
                      else Some t);
                construct_loop D t3 (node + 1) }
      else Some t)"

declare construct_loop.simps [code]

definition Orthtree_bulk ::
  "nat \<Rightarrow> 'a list \<Rightarrow> 'a list \<Rightarrow> 'l list \<Rightarrow> 'a list list \<Rightarrow> nat \<Rightarrow> nat \<Rightarrow> bool
   \<Rightarrow> ('a::{ord,minus,inverse,numeral}, 'l, 'n::default) Orthtree option" where
  "Orthtree_bulk D pos dims vs ps cap maxD adj =
     do { ls \<leftarrow> zip_leafs vs ps;
          let t0 = Orthtree_new D pos dims cap maxD adj;
          let t1 = t0\<lparr>leafs := ls\<rparr>;
          t2 \<leftarrow> nodeUpdate t1 0 (\<lambda>n. n\<lparr>leafIndex := 0, leafCount := length ls\<rparr>);
          construct_loop D t2 0 }"

section \<open>Structural validity\<close>

text \<open>
  The invariants of the store, each as a check over the node array.

  \<open>valid_links\<close>: every node has its \<open>2^Dim + 1\<close> child offsets; a node other than the
  root has a negative parent offset that stays in the array, its parent has children,
  lists it at its sibling index, and is one level above it; the child offsets of a
  node with children are positive, stay in the array, and each child's parent offset
  and sibling index resolve back to the node.
\<close>

definition valid_links :: "nat \<Rightarrow> ('a, 'l, 'n) Orthtree \<Rightarrow> bool" where
  "valid_links D t =
     (nodes t \<noteq> [] \<and>
      list_all (\<lambda>i. let n = nodes t ! i in
          length (childIndices n) = 2 ^ D + 1 \<and>
          (i = 0 \<or>
             parentIndex n < 0 \<and> - parentIndex n \<le> int i \<and>
             (let p = nodes t ! nat (int i + parentIndex n) in
                hasChildren p \<and> siblingIndex n < 2 ^ D \<and>
                int (childIndices p ! siblingIndex n) = - parentIndex n \<and>
                depth n = depth p + 1)) \<and>
          (\<not> hasChildren n \<or>
             list_all (\<lambda>k. let c = childIndices n ! k in
                 0 < c \<and> i + c < length (nodes t) \<and>
                 parentIndex (nodes t ! (i + c)) = - int c \<and>
                 siblingIndex (nodes t ! (i + c)) = k) [0..<2 ^ D]))
        [0..<length (nodes t)])"

text \<open>
  \<open>valid_boxes\<close>: positions and dimensions have \<open>Dim\<close> coordinates, and the box of a
  node other than the root is the half of its parent's box that \<open>allocChildren\<close>
  gives to its sibling index.
\<close>

definition valid_boxes ::
  "nat \<Rightarrow> ('a::{plus,inverse,numeral}, 'l, 'n) Orthtree \<Rightarrow> bool" where
  "valid_boxes D t =
     list_all (\<lambda>i. let n = nodes t ! i in
         length (position n) = D \<and> length (dimensions n) = D \<and>
         (i = 0 \<or>
            (let p = nodes t ! nat (int i + parentIndex n) in
               list_all (\<lambda>d.
                   dimensions n ! d = dimensions p ! d / 2 \<and>
                   position n ! d =
                     (if bit (siblingIndex n) d then position p ! d + dimensions p ! d / 2
                      else position p ! d)) [0..<D])))
       [0..<length (nodes t)]"

text \<open>
  \<open>valid_leaf_ranges\<close>: the root owns the whole leaf array; the leaf range of a node
  with children is the concatenation of its children's ranges, in child order; every
  leaf of a node without children lies in the node's box.
\<close>

definition valid_leaf_ranges ::
  "nat \<Rightarrow> ('a::{ord,minus}, 'l, 'n) Orthtree \<Rightarrow> bool" where
  "valid_leaf_ranges D t =
     (nodes t \<noteq> [] \<and> leafIndex (nodes t ! 0) = 0 \<and> leafCount (nodes t ! 0) = length (leafs t) \<and>
      list_all (\<lambda>i. let n = nodes t ! i in
          leafIndex n + leafCount n \<le> length (leafs t) \<and>
          (if hasChildren n
           then leafIndex (nodes t ! (i + childIndices n ! 0)) = leafIndex n \<and>
                list_all (\<lambda>k.
                    leafIndex (nodes t ! (i + childIndices n ! (k + 1))) =
                      leafIndex (nodes t ! (i + childIndices n ! k)) +
                      leafCount (nodes t ! (i + childIndices n ! k))) [0..<2 ^ D - 1] \<and>
                leafIndex (nodes t ! (i + childIndices n ! (2 ^ D - 1))) +
                  leafCount (nodes t ! (i + childIndices n ! (2 ^ D - 1))) =
                  leafIndex n + leafCount n
           else list_all (\<lambda>j. contains_box D n (lposition (leafs t ! j)))
                  [leafIndex n..<leafIndex n + leafCount n]))
        [0..<length (nodes t)])"

text \<open>
  \<open>valid_capacity\<close>: no node is deeper than \<open>maxDepth\<close>; a node without children
  holds at most \<open>nodeCapacity\<close> leaves unless its depth is \<open>maxDepth\<close>; a node with
  children holds more than \<open>nodeCapacity\<close> leaves.
\<close>

definition valid_capacity :: "('a, 'l, 'n) Orthtree \<Rightarrow> bool" where
  "valid_capacity t =
     list_all (\<lambda>n. depth n \<le> maxDepth t \<and>
                    (if hasChildren n then leafCount n > nodeCapacity t
                     else leafCount n \<le> nodeCapacity t \<or> depth n = maxDepth t))
       (nodes t)"

definition structurally_valid ::
  "nat \<Rightarrow> ('a::{ord,minus,plus,inverse,numeral}, 'l, 'n) Orthtree \<Rightarrow> bool" where
  "structurally_valid D t =
     (valid_links D t \<and> valid_boxes D t \<and> valid_leaf_ranges D t \<and> valid_capacity t)"


section \<open>Example trees\<close>

text \<open>
  One-dimensional trees over \<open>[0, 16)\<close> with node capacity 1 and depth ceiling 4, used
  to run the operations on: the empty tree, a root with one leaf, and a root split
  into two halves with one leaf each.
\<close>

definition ex_empty :: "(rat, nat, unit) Orthtree" where
  "ex_empty = Orthtree_new 1 [0] [16] 1 4 True"

definition ex_root :: "(rat, unit) NodeInternal" where
  "ex_root = \<lparr>position = [0], dimensions = [16], depth = 0, childIndices = [1, 2, 3],
     parentIndex = 0, siblingIndex = 0, leafCount = 2, leafIndex = 0, hasChildren = True,
     nvalue = ()\<rparr>"

definition ex_left :: "(rat, unit) NodeInternal" where
  "ex_left = \<lparr>position = [0], dimensions = [8], depth = 1, childIndices = [1, 1, 1],
     parentIndex = - 1, siblingIndex = 0, leafCount = 1, leafIndex = 0, hasChildren = False,
     nvalue = ()\<rparr>"

definition ex_right :: "(rat, unit) NodeInternal" where
  "ex_right = \<lparr>position = [8], dimensions = [8], depth = 1, childIndices = [1, 1, 1],
     parentIndex = - 2, siblingIndex = 1, leafCount = 1, leafIndex = 1, hasChildren = False,
     nvalue = ()\<rparr>"

definition ex_split :: "(rat, nat, unit) Orthtree" where
  "ex_split = \<lparr>leafs = [\<lparr>lposition = [4], lvalue = 0\<rparr>, \<lparr>lposition = [12], lvalue = 1\<rparr>],
     nodes = [ex_root, ex_left, ex_right],
     nodeCapacity = 1, maxDepth = 4, autoAdjust = True\<rparr>"

text \<open>The root alone, holding the leaf at 12.\<close>

definition ex_one :: "(rat, nat, unit) Orthtree" where
  "ex_one = \<lparr>leafs = [\<lparr>lposition = [12], lvalue = 1\<rparr>],
     nodes = [\<lparr>position = [0], dimensions = [16], depth = 0, childIndices = [1, 1, 1],
               parentIndex = 0, siblingIndex = 0, leafCount = 1, leafIndex = 0,
               hasChildren = False, nvalue = ()\<rparr>],
     nodeCapacity = 1, maxDepth = 4, autoAdjust = True\<rparr>"

text \<open>The root holding the leaf at 12, after its split.\<close>

definition ex_one_split :: "(rat, nat, unit) Orthtree" where
  "ex_one_split = \<lparr>leafs = [\<lparr>lposition = [12], lvalue = 1\<rparr>],
     nodes = [ex_root\<lparr>leafCount := 1\<rparr>, ex_left\<lparr>leafCount := 0\<rparr>, ex_right\<lparr>leafIndex := 0\<rparr>],
     nodeCapacity = 1, maxDepth = 4, autoAdjust = True\<rparr>"

text \<open>The same root over the scalar type with the IEEE special values.\<close>

definition ex_fp :: "(fp, nat, unit) Orthtree" where
  "ex_fp = Orthtree_new 1 [Finite 0] [Finite 16] 1 4 True"



text \<open>
  The root split into two halves, with the leaves at 2 and 4 in the left half and the
  leaf at 12 in the right half, and node capacity 2.
\<close>

definition ex_three :: "(rat, nat, unit) Orthtree" where
  "ex_three = \<lparr>leafs = [\<lparr>lposition = [2], lvalue = 0\<rparr>, \<lparr>lposition = [4], lvalue = 1\<rparr>,
                         \<lparr>lposition = [12], lvalue = 2\<rparr>],
     nodes = [ex_root\<lparr>leafCount := 3\<rparr>, ex_left\<lparr>leafCount := 2\<rparr>, ex_right\<lparr>leafIndex := 2\<rparr>],
     nodeCapacity = 2, maxDepth = 4, autoAdjust = True\<rparr>"

text \<open>
  \<open>parents_below\<close>: the parent offset of every node other than the root points to a
  smaller index of the array.
\<close>

definition parents_below :: "('a, 'l, 'n) Orthtree \<Rightarrow> bool" where
  "parents_below t \<longleftrightarrow>
     (\<forall>i<length (nodes t). i \<noteq> 0 \<longrightarrow>
        parentIndex (nodes t ! i) < 0 \<and> - parentIndex (nodes t ! i) \<le> int i)"

section \<open>Bookkeeping of a split, in closed form\<close>

text \<open>
  \<open>valid_sizes\<close>: the last child offset of a node (\<open>subtreeSize\<close>) is the number of nodes
  of its subtree, which is the whole array for the root; the children of a node with
  children follow it in the array, each right after the subtree of the one before; a
  node without children has the child offsets of \<open>NodeInternal()\<close>, all one.
\<close>

definition subtreeSize :: "nat \<Rightarrow> ('a, 'n) NodeInternal \<Rightarrow> nat" where
  "subtreeSize D n = childIndices n ! (2 ^ D)"

definition valid_sizes :: "nat \<Rightarrow> ('a, 'l, 'n) Orthtree \<Rightarrow> bool" where
  "valid_sizes D t =
     (nodes t \<noteq> [] \<and> subtreeSize D (nodes t ! 0) = length (nodes t) \<and>
      list_all (\<lambda>i. let n = nodes t ! i in
          i + subtreeSize D n \<le> length (nodes t) \<and>
          (if hasChildren n
           then childIndices n ! 0 = 1 \<and>
                list_all (\<lambda>k. childIndices n ! (k + 1) =
                     childIndices n ! k + subtreeSize D (nodes t ! (i + childIndices n ! k)))
                  [0..<2 ^ D]
           else childIndices n = replicate (2 ^ D + 1) 1))
        [0..<length (nodes t)])"

text \<open>
  The node array after nodes have been inserted or erased behind node \<open>i\<close>, as
  \<open>updateAncestorChildData\<close> leaves it.  The subtree of node \<open>i\<close> is replaced by the node
  \<open>x\<close> and the nodes \<open>M\<close>, so that the nodes from \<open>e\<close>, the old end of the subtree, on
  move by \<open>d\<close>.  \<open>shiftOffsets\<close> adds \<open>d\<close> to the child offsets with an index in \<open>K\<close>;
  \<open>shiftChildren\<close> adds \<open>d\<close> to the child offsets of node \<open>j\<close> that reach to \<open>e\<close> or
  beyond; \<open>shiftParent\<close> subtracts \<open>d\<close> from the parent offset of node \<open>j\<close> when its
  parent is before \<open>i\<close> and not before \<open>c\<close>; \<open>splice\<close> is the array when the loop of
  \<open>updateAncestorChildData\<close> has come to the ancestor \<open>c\<close>, and \<open>splice ... 0\<close> the final
  one.
\<close>

definition shiftOffsets :: "nat set \<Rightarrow> int \<Rightarrow> nat list \<Rightarrow> nat list" where
  "shiftOffsets K d cs = map (\<lambda>k. if k \<in> K then nat (int (cs ! k) + d) else cs ! k) [0..<length cs]"

definition shiftChildren ::
  "nat \<Rightarrow> int \<Rightarrow> nat \<Rightarrow> ('a, 'n) NodeInternal \<Rightarrow> ('a, 'n) NodeInternal" where
  "shiftChildren e d j n =
     n\<lparr>childIndices := map (\<lambda>off. if e \<le> j + off then nat (int off + d) else off) (childIndices n)\<rparr>"



text \<open>
  The split of node \<open>i\<close>: \<open>newChildren\<close> are the nodes that \<open>allocChildren\<close> inserts,
  \<open>splitNode\<close> is the node as \<open>updateNodeChildData(node, true)\<close> rewrites it, and
  \<open>afterAlloc\<close> is the tree after both, before the leaves are moved.
\<close>

definition newChildren ::
  "nat \<Rightarrow> ('a::{plus,inverse,numeral}, 'n::default) NodeInternal \<Rightarrow> ('a, 'n) NodeInternal list" where
  "newChildren D n =
     map (\<lambda>index. allocChild D n index (NodeInternal_new D (position n) (dimensions n) default))
       [0..<2 ^ D]"

definition splitNode :: "nat \<Rightarrow> ('a, 'n) NodeInternal \<Rightarrow> ('a, 'n) NodeInternal" where
  "splitNode D n = n\<lparr>hasChildren := True, childIndices := [1..<2 ^ D + 2]\<rparr>"


text \<open>
  \<open>bucketsOf\<close>: the leaves of a node, sorted into one list for each child by
  \<open>childIndexOf\<close>, in their order.  \<open>distributed D u i m\<close> is the state of
  \<open>distributeLeafs\<close> after \<open>m\<close> leaves of node \<open>i\<close> have been moved: the leaves not yet
  moved, then the lists of the children in child order.  \<open>split_ready\<close> is what the
  loop of \<open>distributeLeafs\<close> needs of the tree.
\<close>

definition bucketsOf ::
  "nat \<Rightarrow> ('a::{ord,minus,inverse,numeral}, 'n) NodeInternal \<Rightarrow> ('a, 'l) LeafInternal list
   \<Rightarrow> ('a, 'l) LeafInternal list list" where
  "bucketsOf D n ls = map (\<lambda>k. filter (\<lambda>l. childIndexOf D n (lposition l) = k) ls) [0..<2 ^ D]"




section \<open>Geometry: containment\<close>

lemma contains_box_iff:
  "contains_box D n p \<longleftrightarrow>
     (\<forall>d<D. p ! d \<ge> position n ! d \<and> p ! d - position n ! d < dimensions n ! d)"
  by (auto simp: contains_box_def list_all_iff)

lemma fp_special_not_in_range:
  fixes x lo len :: fp
  assumes "x = NaN \<or> x = PInf \<or> x = NInf"
  shows "\<not> (x \<ge> lo \<and> x - lo < len)"
  using assms by (cases lo; cases len) auto

text \<open>
  C6.  For every node and every point \<open>p\<close>, \<open>contains(node, p)\<close> holds if and only if
  on every axis \<open>d\<close> both \<open>p[d] \<ge> node.position[d]\<close> and
  \<open>p[d] - node.position[d] < node.dimensions[d]\<close>; and over a scalar type with the
  IEEE special values, a point with a NaN or infinite coordinate (on one of the \<open>D\<close>
  axes) is contained by no node.
\<close>

theorem contains_half_open:
  "(nodeAt t i = Some n \<longrightarrow>
      contains D t i p =
        Some (\<forall>d<D. p ! d \<ge> position n ! d \<and> p ! d - position n ! d < dimensions n ! d))
   \<and> (nodeAt tf i = Some nf \<longrightarrow> (\<exists>d<D. q ! d = NaN \<or> q ! d = PInf \<or> q ! d = NInf) \<longrightarrow>
        contains D tf i q = Some False)"
proof (intro conjI impI)
  assume "nodeAt t i = Some n"
  then show "contains D t i p =
      Some (\<forall>d<D. p ! d \<ge> position n ! d \<and> p ! d - position n ! d < dimensions n ! d)"
    by (simp add: contains_def contains_box_iff)
next
  assume n: "nodeAt tf i = Some nf"
    and "\<exists>d<D. q ! d = NaN \<or> q ! d = PInf \<or> q ! d = NInf"
  then obtain d where d: "d < D" "q ! d = NaN \<or> q ! d = PInf \<or> q ! d = NInf"
    by blast
  from fp_special_not_in_range[OF d(2)]
  have "\<not> (q ! d \<ge> position nf ! d \<and> q ! d - position nf ! d < dimensions nf ! d)" .
  with d(1) have "\<not> contains_box D nf q"
    unfolding contains_box_iff by blast
  with n show "contains D tf i q = Some False"
    by (simp add: contains_def)
qed

theorem contains_half_open_witness:
  "contains 1 ex_split 0 [4] = Some True \<and> contains 1 ex_split 0 [16] = Some False
   \<and> contains 1 ex_fp 0 [NaN] = Some False"
proof -
  have n: "nodeAt ex_split 0 = Some ex_root"
    by (simp add: nodeAt_def ex_split_def)
  have nf: "nodeAt ex_fp 0 = Some (NodeInternal_new 1 [Finite 0] [Finite 16] ())"
    by (simp add: nodeAt_def ex_fp_def Orthtree_new_def default_unit_def)
  from contains_half_open[of ex_split 0 ex_root 1 "[4]" ex_fp _ "[NaN]"] n nf
  have a: "contains 1 ex_split 0 [4] = Some True" and c: "contains 1 ex_fp 0 [NaN] = Some False"
    by (simp_all add: ex_root_def)
  from contains_half_open[of ex_split 0 ex_root 1 "[16]" ex_fp _ "[NaN]"] n nf
  have b: "contains 1 ex_split 0 [16] = Some False"
    by (simp add: ex_root_def)
  from a b c show ?thesis by simp
qed

section \<open>Links, boxes and the child index\<close>

lemma nodeAt_nat: "i < length (nodes t) \<Longrightarrow> nodeAt t (int i) = Some (nodes t ! i)"
  by (simp add: nodeAt_def)


lemma nodeAt_SomeD:
  "nodeAt t i = Some n \<Longrightarrow> 0 \<le> i \<and> nat i < length (nodes t) \<and> n = nodes t ! nat i"
  by (auto simp: nodeAt_def split: if_splits)


lemma valid_links_parent:
  assumes "valid_links D t" "i < length (nodes t)" "i \<noteq> 0"
  defines "n \<equiv> nodes t ! i"
  defines "p \<equiv> nodes t ! nat (int i + parentIndex n)"
  shows "parentIndex n < 0" "- parentIndex n \<le> int i" "nat (int i + parentIndex n) < i"
    "hasChildren p" "siblingIndex n < 2 ^ D"
    "int (childIndices p ! siblingIndex n) = - parentIndex n"
    "depth n = depth p + 1"
proof -
  from assms(1,2) have
    "i = 0 \<or>
       parentIndex n < 0 \<and> - parentIndex n \<le> int i \<and>
       (hasChildren p \<and> siblingIndex n < 2 ^ D \<and>
        int (childIndices p ! siblingIndex n) = - parentIndex n \<and> depth n = depth p + 1)"
    unfolding valid_links_def list_all_iff n_def p_def Let_def by simp
  with assms(3) show "parentIndex n < 0" "- parentIndex n \<le> int i" 
    "hasChildren p" "siblingIndex n < 2 ^ D"
    "int (childIndices p ! siblingIndex n) = - parentIndex n"
    "depth n = depth p + 1" by simp_all
  then show "nat (int i + parentIndex n) < i" by linarith
qed

lemma valid_links_child:
  assumes "valid_links D t" "i < length (nodes t)" "hasChildren (nodes t ! i)" "k < 2 ^ D"
  defines "c \<equiv> childIndices (nodes t ! i) ! k"
  shows "0 < c" "i + c < length (nodes t)"
    "parentIndex (nodes t ! (i + c)) = - int c" "siblingIndex (nodes t ! (i + c)) = k"
proof -
  from assms(1,2) have
    "\<not> hasChildren (nodes t ! i) \<or>
       (\<forall>k<2 ^ D. let c = childIndices (nodes t ! i) ! k in
          0 < c \<and> i + c < length (nodes t) \<and>
          parentIndex (nodes t ! (i + c)) = - int c \<and> siblingIndex (nodes t ! (i + c)) = k)"
    unfolding valid_links_def list_all_iff Let_def by simp
  with assms(3,4) show "0 < c" "i + c < length (nodes t)"
    "parentIndex (nodes t ! (i + c)) = - int c" "siblingIndex (nodes t ! (i + c)) = k"
    unfolding c_def Let_def by simp_all
qed

lemma valid_boxes_node:
  assumes "valid_boxes D t" "i < length (nodes t)"
  shows "length (position (nodes t ! i)) = D" "length (dimensions (nodes t ! i)) = D"
  using assms by (auto simp: valid_boxes_def list_all_iff Let_def)


subsection \<open>The child index of \<open>findChild\<close>\<close>







subsection \<open>Boxes of parents and children, over an ordered field\<close>








section \<open>Validity of the example trees\<close>



lemma ex_split_capacity: "valid_capacity ex_split"
  by (simp add: valid_capacity_def ex_split_def ex_root_def ex_left_def ex_right_def)


section \<open>Point location is independent of the hint\<close>




section \<open>Operations that find no node change nothing\<close>


lemma valid_leaf_ranges_node:
  assumes "valid_leaf_ranges D t" "i < length (nodes t)"
  shows "leafIndex (nodes t ! i) + leafCount (nodes t ! i) \<le> length (leafs t)"
proof -
  let ?Q = "\<lambda>i. let n = nodes t ! i in
          leafIndex n + leafCount n \<le> length (leafs t) \<and>
          (if hasChildren n
           then leafIndex (nodes t ! (i + childIndices n ! 0)) = leafIndex n \<and>
                list_all (\<lambda>k.
                    leafIndex (nodes t ! (i + childIndices n ! (k + 1))) =
                      leafIndex (nodes t ! (i + childIndices n ! k)) +
                      leafCount (nodes t ! (i + childIndices n ! k))) [0..<2 ^ D - 1] \<and>
                leafIndex (nodes t ! (i + childIndices n ! (2 ^ D - 1))) +
                  leafCount (nodes t ! (i + childIndices n ! (2 ^ D - 1))) =
                  leafIndex n + leafCount n
           else list_all (\<lambda>j. contains_box D n (lposition (leafs t ! j)))
                  [leafIndex n..<leafIndex n + leafCount n])"
  from assms(1) have "\<forall>i\<in>set [0..<length (nodes t)]. ?Q i"
    unfolding valid_leaf_ranges_def list_all_iff by blast
  moreover have "i \<in> set [0..<length (nodes t)]" using assms(2) by simp
  ultimately have "?Q i" by (rule bspec)
  then show ?thesis unfolding Let_def by blast
qed











section \<open>Splitting a node\<close>





















lemma ev_createChildren: "createChildren 1 ex_one 0 = Some ex_one_split"
  by code_simp

section \<open>Bulk mutators and adjust\<close>

text \<open>
  C9.  Whenever a bulk insert, a bulk erase or a bulk move returns, the \<open>autoAdjust\<close>
  flag of the resulting tree is true, whatever it was before the call.
\<close>

theorem bulk_sets_autoAdjust:
  "(insert_range D t hint vs ps = Some t1 \<longrightarrow> autoAdjust t1) \<and>
   (erase_range D t hint leafBegin leafEnd = Some t2 \<longrightarrow> autoAdjust t2) \<and>
   (move_range D t hint leafBegin leafEnd ps = Some t3 \<longrightarrow> autoAdjust t3)"
proof (intro conjI impI)
  assume "insert_range D t hint vs ps = Some t1"
  then show "autoAdjust t1"
    by (auto simp: insert_range_def split: Option.bind_splits)
next
  assume "erase_range D t hint leafBegin leafEnd = Some t2"
  then show "autoAdjust t2"
    by (auto simp: erase_range_def split: Option.bind_splits)
next
  assume "move_range D t hint leafBegin leafEnd ps = Some t3"
  then show "autoAdjust t3"
    by (auto simp: move_range_def Let_def split: Option.bind_splits if_splits)
qed

lemma ev_insert_range:
  "insert_range 1 (ex_empty\<lparr>autoAdjust := False\<rparr>) 0 [0, 1] [[4], [12]] = Some ex_split"
  by code_simp

lemma ev_erase_range:
  "erase_range 1 (ex_split\<lparr>autoAdjust := False\<rparr>) 0 0 1 = Some ex_one"
  by code_simp

lemma ev_move_range:
  "map_option (\<lambda>t. (leafs t, length (nodes t), autoAdjust t))
     (move_range 1 (ex_split\<lparr>autoAdjust := False\<rparr>) 0 0 1 [[13]]) =
   Some ([\<lparr>lposition = [12], lvalue = 1\<rparr>, \<lparr>lposition = [13], lvalue = 0\<rparr>], 9, True)"
  by code_simp

theorem bulk_sets_autoAdjust_witness:
  "\<not> autoAdjust (ex_split\<lparr>autoAdjust := False\<rparr>) \<and>
   insert_range 1 (ex_empty\<lparr>autoAdjust := False\<rparr>) 0 [0, 1] [[4], [12]] = Some ex_split \<and>
   autoAdjust ex_split \<and>
   erase_range 1 (ex_split\<lparr>autoAdjust := False\<rparr>) 0 0 1 = Some ex_one \<and>
   autoAdjust ex_one \<and>
   (\<exists>t3. move_range 1 (ex_split\<lparr>autoAdjust := False\<rparr>) 0 0 1 [[13]] = Some t3 \<and> autoAdjust t3)"
proof -
  from ev_move_range obtain t3 where
    m: "move_range 1 (ex_split\<lparr>autoAdjust := False\<rparr>) 0 0 1 [[13]] = Some t3"
    by (cases "move_range 1 (ex_split\<lparr>autoAdjust := False\<rparr>) 0 0 1 [[13]]") auto
  from bulk_sets_autoAdjust[of 1 "ex_empty\<lparr>autoAdjust := False\<rparr>" 0 "[0, 1]" "[[4], [12]]" ex_split
      0 1 ex_one]
    ev_insert_range
  have a: "autoAdjust ex_split" by simp
  from bulk_sets_autoAdjust[of 1 "ex_split\<lparr>autoAdjust := False\<rparr>" 0 "[]" "[[13]]" _ 0 1 ex_one t3]
    ev_erase_range m
  have b: "autoAdjust ex_one" and c: "autoAdjust t3" by simp_all
  from a b c m ev_insert_range ev_erase_range show ?thesis by simp
qed

text \<open>
  C2.  \<open>adjust\<close> on a node other than the root: on the split example, adjusting the
  last child of the root changes nothing below that child, yet the root's sentinel
  child offset becomes 4 while the tree still has 3 nodes.  The last statement of
  \<open>Orthtree::adjust\<close> passes \<open>change + 1\<close>, not \<open>change\<close>, to
  \<open>updateAncestorChildData\<close>.  Adjusting the first child makes the same call write
  the parent offset of a node at index 3, outside the node array.
\<close>

theorem adjust_last_child_sentinel:
  "map_option (\<lambda>(t, r). (map childIndices (nodes t), length (nodes t), r)) (adjust 1 ex_split 2)
   = Some ([[1, 2, 4], [1, 1, 1], [1, 1, 1]], 3, False)"
  by code_simp

lemma adjust_first_child: "adjust 1 ex_split 1 = None"
  by code_simp

section \<open>Moving a leaf within its node\<close>


text \<open>Results of the leaf search contain the leaf.\<close>

lemma findChild_leaf_loop_contains:
  "findChild_leaf_loop t node leaf ks = Some c \<Longrightarrow>
     c = nodes_end t \<or> contains_leaf t c leaf = Some True"
  by (induction ks) (auto split: Option.bind_splits if_splits)

lemma find_leaf_up_contains:
  assumes "find_leaf_up t node leaf = Some (Some a)"
  shows "contains_leaf t a leaf = Some True"
proof (rule find_leaf_up.raw_induct
    [where P = "\<lambda>t node leaf r. \<forall>a. r = Some a \<longrightarrow> contains_leaf t a leaf = Some True",
     OF _ assms, rule_format], goal_cases)
  case (1 f t node leaf r)
  then show ?case
    by (auto split: Option.bind_splits if_splits)
qed simp

lemma find_leaf_down_contains_aux:
  assumes "find_leaf_down D t node leaf = Some r"
  shows "(\<exists>n. nodeAt t node = Some n) \<and>
     (contains_leaf t node leaf = Some True \<longrightarrow>
       contains_leaf t r leaf = Some True \<and> (\<exists>n. nodeAt t r = Some n \<and> \<not> hasChildren n))"
proof (rule find_leaf_down.raw_induct
    [where P = "\<lambda>D t node leaf r. (\<exists>n. nodeAt t node = Some n) \<and>
       (contains_leaf t node leaf = Some True \<longrightarrow>
       contains_leaf t r leaf = Some True \<and> (\<exists>n. nodeAt t r = Some n \<and> \<not> hasChildren n))",
     OF _ assms], goal_cases)
  case (1 f D t node leaf r)
  from 1(2) obtain n where n: "nodeAt t node = Some n"
    by (auto split: Option.bind_splits)
  show ?case
  proof (cases "hasChildren n")
    case False
    with 1(2) n show ?thesis by simp
  next
    case True
    with 1(2) n obtain c where c: "findChild_leaf D t node leaf = Some c" "f D t c leaf = Some r"
      by (auto split: Option.bind_splits)
    note ih = 1(1)[OF c(2)]
    from findChild_leaf_loop_contains[OF c(1)[unfolded findChild_leaf_def]]
    have "c = nodes_end t \<or> contains_leaf t c leaf = Some True" .
    moreover have "c \<noteq> nodes_end t"
      using ih by (auto simp: nodeAt_def nodes_end_def split: if_splits)
    ultimately have "contains_leaf t c leaf = Some True" by simp
    with ih n show ?thesis by simp
  qed
qed

lemma find_leaf_contains:
  assumes "find_leaf D t hint leaf = Some s" "s \<noteq> nodes_end t"
  shows "contains_leaf t s leaf = Some True \<and> (\<exists>n. nodeAt t s = Some n \<and> \<not> hasChildren n)"
proof -
  from assms obtain a where a: "find_leaf_up t hint leaf = Some (Some a)"
    "find_leaf_down D t a leaf = Some s"
    by (auto simp: find_leaf_def split: Option.bind_splits option.splits)
  from find_leaf_down_contains_aux[OF a(2)] find_leaf_up_contains[OF a(1)]
  show ?thesis by simp
qed

lemma valid_links_parents_below: "valid_links D t \<Longrightarrow> parents_below t"
  unfolding parents_below_def using valid_links_parent(1,2) by blast

lemma parents_below_update:
  assumes "parents_below t" "parentIndex x = parentIndex (nodes t ! i)"
  shows "parents_below (t\<lparr>nodes := (nodes t)[i := x]\<rparr>)"
  unfolding parents_below_def
proof (intro allI impI)
  fix j assume j: "j < length (nodes (t\<lparr>nodes := (nodes t)[i := x]\<rparr>))" "j \<noteq> 0"
  then have jl: "j < length (nodes t)" by simp
  have "parentIndex (nodes (t\<lparr>nodes := (nodes t)[i := x]\<rparr>) ! j) = parentIndex (nodes t ! j)"
    using assms(2) jl by (cases "j = i") simp_all
  moreover from assms(1) jl j(2) have "parentIndex (nodes t ! j) < 0 \<and> - parentIndex (nodes t ! j) \<le> int j"
    unfolding parents_below_def by blast
  ultimately show "parentIndex (nodes (t\<lparr>nodes := (nodes t)[i := x]\<rparr>) ! j) < 0 \<and>
        - parentIndex (nodes (t\<lparr>nodes := (nodes t)[i := x]\<rparr>) ! j) \<le> int j" by simp
qed

lemma addLeafCount_frame:
  assumes "parents_below u" "p < i" "i < length (nodes u)"
  shows "addLeafCount (u\<lparr>nodes := (nodes u)[i := x]\<rparr>) (int p) d =
     map_option (\<lambda>u'. u'\<lparr>nodes := (nodes u')[i := x]\<rparr>) (addLeafCount u (int p) d)"
  using assms
proof (induction p arbitrary: u rule: less_induct)
  case (less p)
  let ?g = "\<lambda>n. n\<lparr>leafCount := size_add (leafCount n) d\<rparr>"
  let ?u1 = "u\<lparr>nodes := (nodes u)[p := ?g (nodes u ! p)]\<rparr>"
  have pl: "p < length (nodes u)" using less.prems by simp
  have pi: "p \<noteq> i" using less.prems by simp
  have sw: "(nodes u)[i := x, p := ?g (nodes u ! p)] = (nodes u)[p := ?g (nodes u ! p), i := x]"
    using pi by (simp add: list_update_swap)
  have nu: "nodeUpdate (u\<lparr>nodes := (nodes u)[i := x]\<rparr>) (int p) ?g =
      Some (?u1\<lparr>nodes := (nodes ?u1)[i := x]\<rparr>)"
    using pl pi by (simp add: nodeUpdate_def sw)
  have nu': "nodeUpdate u (int p) ?g = Some ?u1"
    using pl by (simp add: nodeUpdate_def)
  show ?case
  proof (cases "p = 0")
    case True
    show ?thesis
      apply (subst addLeafCount.simps)
      apply (subst (2) addLeafCount.simps)
      using True pl nu nu' by (simp add: hasParent_def nodeAt_def)
  next
    case False
    define q where "q = nat (int p + parentIndex (nodes u ! p))"
    from less.prems(1) pl False have pb: "parentIndex (nodes u ! p) < 0"
      "- parentIndex (nodes u ! p) \<le> int p"
      unfolding parents_below_def by blast+
    then have qp: "q < p" and qi: "int p + parentIndex (nodes u ! p) = int q"
      by (simp_all add: q_def)
    have pb1: "parents_below ?u1"
      by (rule parents_below_update[OF less.prems(1)]) simp
    have l1: "i < length (nodes ?u1)" using less.prems by simp
    note ih = less.IH[OF qp pb1 _ l1]
    have qi': "q < i" using qp less.prems by simp
    have lhs: "addLeafCount (u\<lparr>nodes := (nodes u)[i := x]\<rparr>) (int p) d =
        addLeafCount (?u1\<lparr>nodes := (nodes ?u1)[i := x]\<rparr>) (int q) d"
      apply (subst addLeafCount.simps)
      using False pl pi nu qi
      by (simp add: hasParent_def parent_def nodeAt_def)
    have rhs: "addLeafCount u (int p) d = addLeafCount ?u1 (int q) d"
      apply (subst addLeafCount.simps)
      using False pl nu' qi
      by (simp add: hasParent_def parent_def nodeAt_def)
    show ?thesis unfolding lhs rhs by (rule ih[OF qi'])
  qed
qed


lemma size_add_round: "size_add (size_add x 1) (- 1) = x"
  by (simp add: size_add_def Let_def)

lemma parents_below_cong:
  assumes "parents_below u" "map parentIndex (nodes w) = map parentIndex (nodes u)"
  shows "parents_below w"
proof -
  from assms(2) have l: "length (nodes w) = length (nodes u)"
    using length_map by metis
  have "parentIndex (nodes w ! i) = parentIndex (nodes u ! i)" if "i < length (nodes u)" for i
    using assms(2) that l by (metis nth_map)
  with assms(1) l show ?thesis unfolding parents_below_def by simp
qed

lemma addLeafCount_round:
  assumes "parents_below u" "p < length (nodes u)"
  shows "\<exists>w. addLeafCount u (int p) 1 = Some w \<and> addLeafCount w (int p) (- 1) = Some u \<and>
     map parentIndex (nodes w) = map parentIndex (nodes u)"
  using assms
proof (induction p arbitrary: u rule: less_induct)
  case (less p)
  let ?g = "\<lambda>d n. n\<lparr>leafCount := size_add (leafCount n) d\<rparr>"
  let ?x = "?g 1 (nodes u ! p)"
  let ?u1 = "u\<lparr>nodes := (nodes u)[p := ?x]\<rparr>"
  have pl: "p < length (nodes u)" using less.prems by simp
  have nu: "nodeUpdate u (int p) (?g 1) = Some ?u1"
    using pl by (simp add: nodeUpdate_def)
  have bk: "?g (- 1) ?x = nodes u ! p"
    by (simp add: size_add_round)
  have uid: "u\<lparr>nodes := (nodes u)[p := nodes u ! p]\<rparr> = u" by simp
  have pb1: "parents_below ?u1"
    by (rule parents_below_update[OF less.prems(1)]) simp
  show ?case
  proof (cases "p = 0")
    case True
    have a: "addLeafCount u (int p) 1 = Some ?u1"
      apply (subst addLeafCount.simps)
      using True pl nu by (simp add: hasParent_def nodeAt_def)
    have nb: "nodeUpdate ?u1 (int p) (?g (- 1)) = Some u"
      using pl bk by (simp add: nodeUpdate_def)
    have b: "addLeafCount ?u1 (int p) (- 1) = Some u"
      apply (subst addLeafCount.simps)
      using True pl nb by (simp add: hasParent_def nodeAt_def)
    have "map parentIndex (nodes ?u1) = map parentIndex (nodes u)"
      using pl by (simp add: map_update list_update_same_conv)
    with a b show ?thesis by simp
  next
    case False
    define q where "q = nat (int p + parentIndex (nodes u ! p))"
    from less.prems(1) pl False have pb: "parentIndex (nodes u ! p) < 0"
      "- parentIndex (nodes u ! p) \<le> int p"
      unfolding parents_below_def by blast+
    then have qp: "q < p" and qi: "int p + parentIndex (nodes u ! p) = int q"
      by (simp_all add: q_def)
    have ql: "q < length (nodes u)" using qp pl by simp
    from less.IH[OF qp less.prems(1) ql] obtain w where
      w: "addLeafCount u (int q) 1 = Some w" "addLeafCount w (int q) (- 1) = Some u"
         "map parentIndex (nodes w) = map parentIndex (nodes u)" by blast
    have w3: "parents_below w" by (rule parents_below_cong[OF less.prems(1) w(3)])
    have w4: "length (nodes w) = length (nodes u)" using w(3) length_map by metis
    let ?w1 = "w\<lparr>nodes := (nodes w)[p := ?x]\<rparr>"
    have a0: "addLeafCount u (int p) 1 = addLeafCount ?u1 (int q) 1"
      apply (subst addLeafCount.simps)
      using False pl nu qi by (simp add: hasParent_def parent_def nodeAt_def)
    have a: "addLeafCount u (int p) 1 = Some ?w1"
      unfolding a0 using addLeafCount_frame[OF less.prems(1) qp pl, of ?x 1] w(1) by simp
    have plw: "p < length (nodes w)" using pl w4 by simp
    let ?w2 = "w\<lparr>nodes := (nodes w)[p := nodes u ! p]\<rparr>"
    have nb: "nodeUpdate ?w1 (int p) (?g (- 1)) = Some ?w2"
      using plw bk by (simp add: nodeUpdate_def)
    have b0: "addLeafCount ?w1 (int p) (- 1) = addLeafCount ?w2 (int q) (- 1)"
      apply (subst addLeafCount.simps)
      using False plw nb qi by (simp add: hasParent_def parent_def nodeAt_def)
    have b: "addLeafCount ?w1 (int p) (- 1) = Some u"
      unfolding b0 using addLeafCount_frame[OF w3 qp plw, of "nodes u ! p" "- 1"] w(2) uid
      by simp
    have pbw: "map parentIndex (nodes ?w1) = map parentIndex (nodes u)"
      using w(3) pl by (simp add: map_update list_update_same_conv)
    from a b pbw show ?thesis by simp
  qed
qed


lemma move_merge_loop_same:
  assumes vl: "valid_links D t" and s: "s < length (nodes t)"
  shows "move_merge_loop D t (int s) (int s) = Some (t, int s, int s)"
proof (cases "s = 0")
  case True
  with s show ?thesis
    by (subst move_merge_loop.simps) (simp add: hasParent_def nodeAt_def)
next
  case False
  define q where "q = nat (int s + parentIndex (nodes t ! s))"
  note vp = valid_links_parent[OF vl s False]
  from vp(1,2) have qi: "int s + parentIndex (nodes t ! s) = int q"
    by (simp add: q_def)
  from vp(3) have qs: "q < s" by (simp add: q_def)
  then have ql: "q < length (nodes t)" using s by simp
  from vp(7) have d: "depth (nodes t ! s) = depth (nodes t ! q) + 1"
    by (simp add: q_def)
  have l2: "contains_node_loop t (int q) (depth (nodes t ! q)) = Some (int q)"
    by (subst contains_node_loop.simps) (simp add: nodeAt_nat[OF ql])
  have l1: "contains_node_loop t (int s) (depth (nodes t ! q)) = Some (int q)"
    by (subst contains_node_loop.simps) (simp add: nodeAt_nat[OF s] d qi l2)
  have cn: "contains_node t (int q) (int s) = Some True"
    by (simp add: contains_node_def nodeAt_nat[OF ql] l1)
  show ?thesis
    apply (subst move_merge_loop.simps)
    using False
    by (simp add: hasParent_def parent_def nodeAt_nat[OF s] qi canHoldLeafs_def
        nodeAt_nat[OF ql] cn)
qed

lemma move_split_loop_same:
  assumes "s < length (nodes t)"
  shows "move_split_loop D t (int s) (int s) pos = Some (t, int s, int s)"
  by (subst move_split_loop.simps) (simp add: canHoldLeafs_def nodeAt_nat[OF assms])

lemma addLeafIndex_same:
  assumes "s < length (nodes t)"
  shows "addLeafIndex t (int s) (int s) d = Some t"
proof -
  have "take (s + 1) (nodes t) @ drop (s + 1) (nodes t) = nodes t" by simp
  then show ?thesis using assms by (simp add: addLeafIndex_def nodes_end_def)
qed

lemma moveAt_same:
  assumes pb: "parents_below t" and s: "s < length (nodes t)"
    and l: "0 \<le> leaf" "leaf < leafs_end_of (nodes t ! s)"
    and e: "leafs_end_of (nodes t ! s) \<le> leafs_end t"
  shows "moveAt t (int s) (int s) leaf =
     Some (t\<lparr>leafs :=
             take (nat leaf) (leafs t) @
             take (nat (leafs_end_of (nodes t ! s)) - nat leaf - 1) (drop (nat leaf + 1) (leafs t)) @
             [leafs t ! nat leaf] @
             drop (nat (leafs_end_of (nodes t ! s))) (leafs t)\<rparr>,
           leafs_end_of (nodes t ! s) - 1)"
proof -
  let ?e = "leafs_end_of (nodes t ! s)"
  let ?t1 = "t\<lparr>leafs :=
             take (nat leaf) (leafs t) @
             take (nat ?e - nat leaf - 1) (drop (nat leaf + 1) (leafs t)) @
             [leafs t ! nat leaf] @
             drop (nat ?e) (leafs t)\<rparr>"
  have pb1: "parents_below ?t1" using pb by (simp add: parents_below_def)
  have s1: "s < length (nodes ?t1)" using s by simp
  from addLeafCount_round[OF pb1 s1] obtain w where
    w: "addLeafCount ?t1 (int s) 1 = Some w" "addLeafCount w (int s) (- 1) = Some ?t1"
    by blast
  have ai: "addLeafIndex ?t1 (int s) (int s) 1 = Some ?t1"
    by (rule addLeafIndex_same[OF s1])
  show ?thesis
    unfolding moveAt_def
    using l e w ai by (simp add: nodeAt_nat[OF s] Let_def)
qed

lemma rotate_updated:
  assumes "i < e" "e \<le> length ls"
  shows "take i (ls[i := x]) @ take (e - i - 1) (drop (i + 1) (ls[i := x])) @
           [ls[i := x] ! i] @ drop e (ls[i := x]) =
         take i ls @ take (e - i - 1) (drop (i + 1) ls) @ [x] @ drop e ls"
  using assms by simp


text \<open>
  C10.  In a tree with valid links and leaf ranges, when the leaf search for a leaf
  handle \<open>leaf\<close> (an index that is not negative) and the point search for the new
  position \<open>p\<close> end at the same node \<open>s\<close>, \<open>move\<close> returns; the node array and the
  other fields of the tree are the old ones, and so is the number of leaves; the leaf
  array is the old one with the slice from \<open>leaf\<close> to the end of the leaves of \<open>s\<close>
  rotated left by one, so that the leaf is the last leaf of \<open>s\<close> and the other leaves
  keep their order; the position stored with the leaf is \<open>p\<close>; the source and the
  destination handle returned are both \<open>s\<close>, which has no children, and the leaf
  handle returned is the last slot of \<open>s\<close>.
\<close>

theorem move_within_node:
  fixes t :: "('a::{ord,minus,inverse,numeral}, 'l, 'n::default) Orthtree"
  assumes vl: "valid_links D t" and vr: "valid_leaf_ranges D t"
    and leaf: "0 \<le> leaf"
    and src: "find_leaf D t hint leaf = Some s"
    and dst: "find_point D t hint p = Some s"
    and s: "s \<noteq> nodes_end t"
  shows "\<exists>n. nodeAt t s = Some n \<and> \<not> hasChildren n \<and>
     leafs_begin n \<le> leaf \<and> leaf < leafs_end_of n \<and> leafs_end_of n \<le> leafs_end t \<and>
     move D t hint leaf p =
       Some (t\<lparr>leafs :=
               take (nat leaf) (leafs t) @
               take (nat (leafs_end_of n) - nat leaf - 1) (drop (nat leaf + 1) (leafs t)) @
               [(leafs t ! nat leaf)\<lparr>lposition := p\<rparr>] @
               drop (nat (leafs_end_of n)) (leafs t)\<rparr>,
             s, s, leafs_end_of n - 1)"
proof -
  from find_leaf_contains[OF src s] obtain n where
    c: "contains_leaf t s leaf = Some True" and n: "nodeAt t s = Some n" and nc: "\<not> hasChildren n"
    by blast
  define j where "j = nat s"
  from nodeAt_SomeD[OF n] have sj: "s = int j" and jl: "j < length (nodes t)"
    and nj: "n = nodes t ! j" by (simp_all add: j_def)
  define i where "i = nat leaf"
  define e where "e = leafIndex n + leafCount n"
  have li: "leaf = int i" using leaf by (simp add: i_def)
  have ee: "leafs_end_of n = int e" by (simp add: leafs_end_of_def e_def)
  from c n leaf have rng: "leafIndex n \<le> i" "i < e"
    by (simp_all add: contains_leaf_def Let_def size_of_int_def i_def e_def)
  from valid_leaf_ranges_node[OF vr jl] have el: "e \<le> length (leafs t)"
    by (simp add: e_def nj)
  let ?x = "(leafs t ! i)\<lparr>lposition := p\<rparr>"
  let ?t3 = "t\<lparr>leafs := (leafs t)[i := ?x]\<rparr>"
  have pb3: "parents_below ?t3"
    using valid_links_parents_below[OF vl] by (simp add: parents_below_def)
  have j3: "j < length (nodes ?t3)" using jl by simp
  have m: "moveAt ?t3 (int j) (int j) (int i) =
      Some (t\<lparr>leafs := take i (leafs t) @ take (e - i - 1) (drop (i + 1) (leafs t)) @
                 [?x] @ drop e (leafs t)\<rparr>, int e - 1)"
  proof -
    have "moveAt ?t3 (int j) (int j) (int i) =
      Some (?t3\<lparr>leafs :=
             take (nat (int i)) (leafs ?t3) @
             take (nat (leafs_end_of (nodes ?t3 ! j)) - nat (int i) - 1)
               (drop (nat (int i) + 1) (leafs ?t3)) @
             [leafs ?t3 ! nat (int i)] @
             drop (nat (leafs_end_of (nodes ?t3 ! j))) (leafs ?t3)\<rparr>,
           leafs_end_of (nodes ?t3 ! j) - 1)"
      apply (rule moveAt_same[OF pb3 j3])
      using rng el ee nj by (simp_all add: leafs_end_def)
    also have "\<dots> = Some (t\<lparr>leafs := take i (leafs t) @ take (e - i - 1) (drop (i + 1) (leafs t)) @
                 [?x] @ drop e (leafs t)\<rparr>, int e - 1)"
      using rotate_updated[OF rng(2) el, of ?x] ee nj by simp
    finally show ?thesis .
  qed
  have lt: "i < length (leafs t)" using rng el by simp
  have lt': "leaf < int (length (leafs t))" using lt leaf by (simp add: i_def)
  have mv: "move D t hint leaf p =
      Some (t\<lparr>leafs := take i (leafs t) @ take (e - i - 1) (drop (i + 1) (leafs t)) @
                 [?x] @ drop e (leafs t)\<rparr>, s, s, int e - 1)"
    unfolding move_def src dst
    using s lt lt' leaf m
    by (simp add: sj leafs_end_def move_merge_loop_same[OF vl jl] move_split_loop_same[OF jl]
        i_def[symmetric] li[symmetric])
  show ?thesis
    apply (rule exI[of _ n])
    using n nc rng el mv
    by (simp add: ee li leafs_begin_def leafs_end_def)
qed

lemma ex_three_links: "valid_links 1 ex_three"
  by code_simp

lemma ex_three_ranges: "valid_leaf_ranges 1 ex_three"
  by code_simp

lemma ex_three_find_leaf: "find_leaf 1 ex_three 0 0 = Some 1"
  by code_simp

lemma ex_three_find_point: "find_point 1 ex_three 0 [5] = Some 1"
  by code_simp

theorem move_within_node_witness:
  "valid_links 1 ex_three \<and> valid_leaf_ranges 1 ex_three \<and>
   find_leaf 1 ex_three 0 0 = Some 1 \<and> find_point 1 ex_three 0 [5] = Some 1 \<and>
   move 1 ex_three 0 0 [5] =
     Some (ex_three\<lparr>leafs := [\<lparr>lposition = [4], lvalue = 1\<rparr>, \<lparr>lposition = [5], lvalue = 0\<rparr>,
                               \<lparr>lposition = [12], lvalue = 2\<rparr>]\<rparr>, 1, 1, 1)"
proof -
  have ne: "(1::int) \<noteq> nodes_end ex_three" by (simp add: nodes_end_def ex_three_def)
  have le: "(0::int) \<le> 0" by simp
  from move_within_node[OF ex_three_links ex_three_ranges le ex_three_find_leaf
      ex_three_find_point ne]
  obtain n where n: "nodeAt ex_three 1 = Some n" and
    m: "move 1 ex_three 0 0 [5] =
       Some (ex_three\<lparr>leafs :=
               take (nat 0) (leafs ex_three) @
               take (nat (leafs_end_of n) - nat 0 - 1) (drop (nat 0 + 1) (leafs ex_three)) @
               [(leafs ex_three ! nat 0)\<lparr>lposition := [5]\<rparr>] @
               drop (nat (leafs_end_of n)) (leafs ex_three)\<rparr>,
             1, 1, leafs_end_of n - 1)"
    by blast
  from n have "n = ex_left\<lparr>leafCount := 2\<rparr>"
    by (simp add: nodeAt_def ex_three_def)
  then have e: "leafs_end_of n = 2"
    by (simp add: leafs_end_of_def ex_left_def)
  have "move 1 ex_three 0 0 [5] =
     Some (ex_three\<lparr>leafs := [\<lparr>lposition = [4], lvalue = 1\<rparr>, \<lparr>lposition = [5], lvalue = 0\<rparr>,
                               \<lparr>lposition = [12], lvalue = 2\<rparr>]\<rparr>, 1, 1, 1)"
    unfolding m e by (simp add: ex_three_def)
  with ex_three_links ex_three_ranges ex_three_find_leaf ex_three_find_point
  show ?thesis by simp
qed

section \<open>The split of a node returns and sorts the leaves\<close>

lemma valid_sizes_node:
  assumes "valid_sizes D t" "i < length (nodes t)"
  shows "i + subtreeSize D (nodes t ! i) \<le> length (nodes t)"
    and "\<not> hasChildren (nodes t ! i) \<Longrightarrow> subtreeSize D (nodes t ! i) = 1"
    and "hasChildren (nodes t ! i) \<Longrightarrow> childIndices (nodes t ! i) ! 0 = 1"
    and "hasChildren (nodes t ! i) \<Longrightarrow> k < 2 ^ D \<Longrightarrow>
           childIndices (nodes t ! i) ! (Suc k) =
             childIndices (nodes t ! i) ! k +
             subtreeSize D (nodes t ! (i + childIndices (nodes t ! i) ! k))"
proof -
  let ?Q = "\<lambda>i. let n = nodes t ! i in
          i + subtreeSize D n \<le> length (nodes t) \<and>
          (if hasChildren n
           then childIndices n ! 0 = 1 \<and>
                list_all (\<lambda>k. childIndices n ! (k + 1) =
                     childIndices n ! k + subtreeSize D (nodes t ! (i + childIndices n ! k)))
                  [0..<2 ^ D]
           else childIndices n = replicate (2 ^ D + 1) 1)"
  from assms(1) have "list_all ?Q [0..<length (nodes t)]"
    unfolding valid_sizes_def by blast
  then have q: "?Q i" using assms(2) by (simp add: list_all_iff)
  from q show "i + subtreeSize D (nodes t ! i) \<le> length (nodes t)"
    by (simp add: Let_def)
  from q show "\<not> hasChildren (nodes t ! i) \<Longrightarrow> subtreeSize D (nodes t ! i) = 1"
    by (simp add: Let_def subtreeSize_def)
  from q show "hasChildren (nodes t ! i) \<Longrightarrow> childIndices (nodes t ! i) ! 0 = 1"
    by (simp add: Let_def)
  from q show "hasChildren (nodes t ! i) \<Longrightarrow> k < 2 ^ D \<Longrightarrow>
           childIndices (nodes t ! i) ! (Suc k) =
             childIndices (nodes t ! i) ! k +
             subtreeSize D (nodes t ! (i + childIndices (nodes t ! i) ! k))"
    by (simp add: Let_def list_all_iff)
qed


lemma valid_sizes_root:
  "valid_sizes D t \<Longrightarrow> subtreeSize D (nodes t ! 0) = length (nodes t)"
  by (simp add: valid_sizes_def)

lemma subtreeSize_pos:
  assumes vl: "valid_links D t" and vs: "valid_sizes D t" and i: "i < length (nodes t)"
  shows "0 < subtreeSize D (nodes t ! i)"
proof (cases "hasChildren (nodes t ! i)")
  case False
  with valid_sizes_node(2)[OF vs i] show ?thesis by simp
next
  case True
  have k: "2 ^ D - 1 < (2::nat) ^ D" by simp
  have "Suc (2 ^ D - 1) = (2::nat) ^ D" by simp
  with valid_sizes_node(4)[OF vs i True k]
  have "subtreeSize D (nodes t ! i) \<ge> childIndices (nodes t ! i) ! (2 ^ D - 1)"
    unfolding subtreeSize_def by simp
  with valid_links_child(1)[OF vl i True k] show ?thesis by simp
qed

text \<open>The child offsets of a node with children increase strictly.\<close>

lemma childIndices_step:
  assumes vl: "valid_links D t" and vs: "valid_sizes D t" and i: "i < length (nodes t)"
    and h: "hasChildren (nodes t ! i)" and k: "k < 2 ^ D"
  shows "childIndices (nodes t ! i) ! k < childIndices (nodes t ! i) ! (Suc k)"
proof -
  from valid_links_child(2)[OF vl i h k]
  have "0 < subtreeSize D (nodes t ! (i + childIndices (nodes t ! i) ! k))"
    by (rule subtreeSize_pos[OF vl vs])
  with valid_sizes_node(4)[OF vs i h k] show ?thesis by simp
qed

lemma childIndices_mono:
  assumes vl: "valid_links D t" and vs: "valid_sizes D t" and i: "i < length (nodes t)"
    and h: "hasChildren (nodes t ! i)"
  shows "k' \<le> 2 ^ D \<Longrightarrow> k < k' \<Longrightarrow>
     childIndices (nodes t ! i) ! k < childIndices (nodes t ! i) ! k'"
proof (induction k')
  case 0
  then show ?case by simp
next
  case (Suc k')
  have st: "childIndices (nodes t ! i) ! k' < childIndices (nodes t ! i) ! (Suc k')"
    using childIndices_step[OF vl vs i h] Suc.prems by simp
  show ?case
  proof (cases "k = k'")
    case True
    with st show ?thesis by simp
  next
    case False
    with Suc have "childIndices (nodes t ! i) ! k < childIndices (nodes t ! i) ! k'" by simp
    with st show ?thesis by simp
  qed
qed


lemma childIndices_pos:
  assumes vl: "valid_links D t" and vs: "valid_sizes D t" and i: "i < length (nodes t)"
    and h: "hasChildren (nodes t ! i)" and k: "k \<le> 2 ^ D"
  shows "0 < childIndices (nodes t ! i) ! k"
  using childIndices_mono[OF vl vs i h, of k 0] k valid_sizes_node(3)[OF vs i h]
  by (cases "k = 0") simp_all








lemma shiftOffsets_length [simp]: "length (shiftOffsets K d cs) = length cs"
  by (simp add: shiftOffsets_def)


lemma shiftOffsets_empty [simp]: "shiftOffsets {} d cs = cs"
  by (simp add: shiftOffsets_def map_nth)











lemma shiftChildren_fields [simp]:
  "parentIndex (shiftChildren e d j n) = parentIndex n"
  "siblingIndex (shiftChildren e d j n) = siblingIndex n"
  "hasChildren (shiftChildren e d j n) = hasChildren n"
  "depth (shiftChildren e d j n) = depth n"
  "leafIndex (shiftChildren e d j n) = leafIndex n"
  "leafCount (shiftChildren e d j n) = leafCount n"
  "position (shiftChildren e d j n) = position n"
  "dimensions (shiftChildren e d j n) = dimensions n"
  "nvalue (shiftChildren e d j n) = nvalue n"
  "length (childIndices (shiftChildren e d j n)) = length (childIndices n)"
  by (simp_all add: shiftChildren_def)






lemma newChildren_length [simp]: "length (newChildren D n) = 2 ^ D"
  by (simp add: newChildren_def)



lemma bucketsOf_length [simp]: "length (bucketsOf D n ls) = 2 ^ D"
  by (simp add: bucketsOf_def)







lemma take_update_le: "j \<le> k \<Longrightarrow> take j (B[k := x]) = take j B"
  by simp


















lemma splitNode_fields [simp]:
  "parentIndex (splitNode D n) = parentIndex n"
  "siblingIndex (splitNode D n) = siblingIndex n"
  "leafIndex (splitNode D n) = leafIndex n"
  "leafCount (splitNode D n) = leafCount n"
  "position (splitNode D n) = position n"
  "dimensions (splitNode D n) = dimensions n"
  "depth (splitNode D n) = depth n"
  "nvalue (splitNode D n) = nvalue n"
  "hasChildren (splitNode D n) = True"
  "childIndices (splitNode D n) = [1..<2 ^ D + 2]"
  by (simp_all add: splitNode_def)













end
